theory Spec2Isabelle
  imports Main "HOL-Library.Word"
begin

section \<open>Strings as the routes build them\<close>

text \<open>
  JavaScript template strings render numbers in decimal; \<open>showInt\<close> is that rendering
  for the integers the routes interpolate (version numbers, \<open>Date.now()\<close>).
\<close>

definition digitChar :: "nat \<Rightarrow> char" where
  "digitChar d = ''0123456789abcdef'' ! d"

function showNat :: "nat \<Rightarrow> string" where
  "showNat n = (if n < 10 then [digitChar n] else showNat (n div 10) @ [digitChar (n mod 10)])"
  by pat_completeness auto
termination
  by (relation "measure id") auto

declare showNat.simps [simp del]

definition showInt :: "int \<Rightarrow> string" where
  "showInt i = (if i < 0 then CHR ''-'' # showNat (nat (- i)) else showNat (nat i))"

text \<open>\<open>Number.prototype.toString(16)\<close> on a non-negative integer.\<close>

function showHex :: "nat \<Rightarrow> string" where
  "showHex n = (if n < 16 then [digitChar n] else showHex (n div 16) @ [digitChar (n mod 16)])"
  by pat_completeness auto
termination
  by (relation "measure id") auto

declare showHex.simps [simp del]

text \<open>
  A JavaScript string is a sequence of UTF-16 code units. The routes compare,
  concatenate and store most of their strings without looking at the characters;
  those are \<open>string\<close> here. A contract's title is trimmed, which does look at the
  characters, so titles are \<open>jsString\<close>, lists of code units.
\<close>

type_synonym jsString = "16 word list"

text \<open>The code units of an ASCII string.\<close>

definition ascii :: "string \<Rightarrow> jsString" where
  "ascii s = map of_char s"

text \<open>
  \<open>String.prototype.trim\<close> strips the code units of ECMAScript's WhiteSpace and
  LineTerminator from both ends: TAB, LF, VT, FF, CR, space, U+00A0, U+1680,
  U+2000 to U+200A, U+2028, U+2029, U+202F, U+205F, U+3000 and U+FEFF.
\<close>

definition isSpace :: "16 word \<Rightarrow> bool" where
  "isSpace c =
     ((0x0009 \<le> c \<and> c \<le> 0x000D) \<or> c = 0x0020 \<or> c = 0x00A0 \<or> c = 0x1680 \<or>
      (0x2000 \<le> c \<and> c \<le> 0x200A) \<or> c = 0x2028 \<or> c = 0x2029 \<or> c = 0x202F \<or>
      c = 0x205F \<or> c = 0x3000 \<or> c = 0xFEFF)"

definition trim :: "jsString \<Rightarrow> jsString" where
  "trim s = rev (dropWhile isSpace (rev (dropWhile isSpace s)))"

section \<open>Data model: the Prisma tables as the routes read and write them\<close>

datatype Role = VIEWER | COMMENTER | EDITOR | ADMIN

record user =
  user_id :: string
  user_email :: string
  user_passwordHash :: string
  user_name :: string
  user_color :: string

record contract =
  contract_id :: string
  contract_title :: jsString
  contract_s3Key :: string
  contract_ownerId :: string
  contract_version :: int
  contract_fileSize :: nat

record contractVersion =
  cv_contractId :: string
  cv_version :: int
  cv_s3Key :: string
  cv_changeNote :: string
  cv_createdById :: string

record permission =
  perm_id :: string
  perm_contractId :: string
  perm_userId :: string
  perm_role :: Role

text \<open>
  The database and the object store that the routes of \<open>routes/contracts.ts\<close> touch.
  Tables are lists of rows; the bucket is a list of (key, body) pairs.
\<close>

record db =
  users :: "user list"
  contracts :: "contract list"
  contractVersions :: "contractVersion list"
  permissions :: "permission list"
  s3 :: "(string \<times> string) list"

record uploadedFile =
  file_buffer :: string
  file_mimetype :: string
  file_size :: nat

text \<open>The JSON bodies the routes answer with.\<close>

datatype body =
    ErrorBody string
  | ZodErrorBody
  | ContractBody contract
  | MessageBody string
  | VersionBody string int
  | PermissionBody permission "(string \<times> string \<times> string) option"
  | SuccessBody

type_synonym response = "nat \<times> body"

subsection \<open>The services of \<open>services/s3.ts\<close>\<close>

definition uploadToS3 :: "string \<Rightarrow> string \<Rightarrow> (string \<times> string) list \<Rightarrow> (string \<times> string) list" where
  "uploadToS3 key bdy bucket = (key, bdy) # filter (\<lambda>(k, _). k \<noteq> key) bucket"

definition deleteFromS3 :: "string \<Rightarrow> (string \<times> string) list \<Rightarrow> (string \<times> string) list" where
  "deleteFromS3 key bucket = filter (\<lambda>(k, _). k \<noteq> key) bucket"

subsection \<open>Prisma queries\<close>

definition findContract :: "db \<Rightarrow> string \<Rightarrow> contract option" where
  "findContract d cid = find (\<lambda>c. contract_id c = cid) (contracts d)"

definition findOwnedContract :: "db \<Rightarrow> string \<Rightarrow> string \<Rightarrow> contract option" where
  "findOwnedContract d cid uid =
     find (\<lambda>c. contract_id c = cid \<and> contract_ownerId c = uid) (contracts d)"

text \<open>
  \<open>findFirst\<close> of the upload route: the contract with this id whose owner is the user,
  or on which the user holds a grant of role EDITOR or ADMIN.
\<close>

definition hasEditorGrant :: "db \<Rightarrow> string \<Rightarrow> string \<Rightarrow> bool" where
  "hasEditorGrant d cid uid =
     list_ex (\<lambda>p. perm_contractId p = cid \<and> perm_userId p = uid \<and>
                  (perm_role p = EDITOR \<or> perm_role p = ADMIN)) (permissions d)"

definition findEditableContract :: "db \<Rightarrow> string \<Rightarrow> string \<Rightarrow> contract option" where
  "findEditableContract d cid uid =
     find (\<lambda>c. contract_id c = cid \<and>
               (contract_ownerId c = uid \<or> hasEditorGrant d (contract_id c) uid)) (contracts d)"

definition updateContract :: "string \<Rightarrow> (contract \<Rightarrow> contract) \<Rightarrow> db \<Rightarrow> db" where
  "updateContract cid f d =
     d\<lparr>contracts := map (\<lambda>c. if contract_id c = cid then f c else c) (contracts d)\<rparr>"

definition findVersion :: "db \<Rightarrow> string \<Rightarrow> int \<Rightarrow> contractVersion option" where
  "findVersion d cid v =
     find (\<lambda>s. cv_contractId s = cid \<and> cv_version s = v) (contractVersions d)"

text \<open>
  \<open>prisma.contractVersion.create\<close>. The routes address a snapshot by the compound key
  \<open>contractId_version\<close>, which Prisma offers only for a unique pair of columns: a
  second row for the same (contract, version) is refused, the call throws (\<open>None\<close>).
\<close>

definition createContractVersion :: "contractVersion \<Rightarrow> db \<Rightarrow> db option" where
  "createContractVersion s d =
     (case findVersion d (cv_contractId s) (cv_version s) of
        Some _ \<Rightarrow> None
      | None \<Rightarrow> Some (d\<lparr>contractVersions := contractVersions d @ [s]\<rparr>))"

section \<open>The contracts router\<close>

text \<open>
  \<open>PATCH /:id\<close> (rename). \<open>title\<close> is the body's field: \<open>None\<close> when it is missing or
  not a string.
\<close>

definition renameContract :: "db \<Rightarrow> user \<Rightarrow> string \<Rightarrow> jsString option \<Rightarrow> response \<times> db" where
  "renameContract d reqUser cid title =
     (case title of
        None \<Rightarrow> ((400, ErrorBody ''Title is required''), d)
      | Some t \<Rightarrow>
          if t = [] \<or> length (trim t) = 0 then ((400, ErrorBody ''Title is required''), d)
          else
            (case findContract d cid of
               None \<Rightarrow> ((404, ErrorBody ''Not found''), d)
             | Some c \<Rightarrow>
                 if contract_ownerId c \<noteq> user_id reqUser
                 then ((403, ErrorBody ''Only owner can rename''), d)
                 else ((200, ContractBody (c\<lparr>contract_title := trim t\<rparr>)),
                       updateContract cid (\<lambda>c. c\<lparr>contract_title := trim t\<rparr>) d)))"

text \<open>
  \<open>DELETE /:id\<close>.

  Modelled from the spec: the Prisma schema is not among the sources, so what
  \<open>prisma.contract.delete\<close> does to the rows that refer to the contract is taken from
  the spec's data model: snapshots and grants are cleared with the parent document.
\<close>

definition deleteContract :: "db \<Rightarrow> user \<Rightarrow> string \<Rightarrow> response \<times> db" where
  "deleteContract d reqUser cid =
     (case findContract d cid of
        None \<Rightarrow> ((404, ErrorBody ''Not found''), d)
      | Some c \<Rightarrow>
          if contract_ownerId c \<noteq> user_id reqUser
          then ((403, ErrorBody ''Only owner can delete''), d)
          else ((200, MessageBody ''Deleted successfully''),
                d\<lparr>s3 := deleteFromS3 (contract_s3Key c) (s3 d),
                  contracts := filter (\<lambda>c. contract_id c \<noteq> cid) (contracts d),
                  contractVersions := filter (\<lambda>s. cv_contractId s \<noteq> cid) (contractVersions d),
                  permissions := filter (\<lambda>p. perm_contractId p \<noteq> cid) (permissions d)\<rparr>))"

section \<open>The versions router\<close>

text \<open>
  \<open>POST /:contractId\<close> (upload a new version). \<open>changeNote\<close> is the body's field
  (\<open>None\<close> when absent; the empty string is falsy too), \<open>now\<close> is \<open>Date.now()\<close>, and
  \<open>s3ok\<close> says whether the object store accepts the upload (otherwise \<open>uploadToS3\<close>
  throws and the handler's \<open>catch\<close> answers 500).
\<close>

definition newVersionKey :: "string \<Rightarrow> int \<Rightarrow> nat \<Rightarrow> string" where
  "newVersionKey cid v now =
     ''contracts/'' @ cid @ ''/v'' @ showInt (v + 1) @ ''-'' @ showNat now @ ''.pdf''"

definition archiveNote :: "string option \<Rightarrow> int \<Rightarrow> string" where
  "archiveNote changeNote v =
     (case changeNote of
        None \<Rightarrow> ''Version '' @ showInt v
      | Some n \<Rightarrow> if n = [] then ''Version '' @ showInt v else n)"

definition uploadVersion ::
  "db \<Rightarrow> user \<Rightarrow> string \<Rightarrow> string option \<Rightarrow> uploadedFile option \<Rightarrow> nat \<Rightarrow> bool \<Rightarrow> response \<times> db" where
  "uploadVersion d reqUser cid changeNote file now s3ok =
     (case file of
        None \<Rightarrow> ((400, ErrorBody ''No file uploaded''), d)
      | Some f \<Rightarrow>
          (case findEditableContract d cid (user_id reqUser) of
             None \<Rightarrow> ((403, ErrorBody ''Permission denied. Must be owner or editor.''), d)
           | Some c \<Rightarrow>
               (case createContractVersion
                       \<lparr>cv_contractId = contract_id c, cv_version = contract_version c,
                        cv_s3Key = contract_s3Key c,
                        cv_changeNote = archiveNote changeNote (contract_version c),
                        cv_createdById = user_id reqUser\<rparr> d of
                  None \<Rightarrow> ((500, ErrorBody ''Failed to upload new version''), d)
                | Some d1 \<Rightarrow>
                    let newS3Key = newVersionKey cid (contract_version c) now in
                    if \<not> s3ok then ((500, ErrorBody ''Failed to upload new version''), d1)
                    else
                      let d2 = d1\<lparr>s3 := uploadToS3 newS3Key (file_buffer f) (s3 d1)\<rparr>;
                          d3 = updateContract cid
                                 (\<lambda>r. r\<lparr>contract_s3Key := newS3Key,
                                         contract_version := contract_version c + 1,
                                         contract_fileSize := file_size f\<rparr>) d2
                      in ((200, VersionBody ''New version uploaded'' (contract_version c + 1)), d3))))"

text \<open>
  \<open>POST /:contractId/:version/restore\<close>. \<open>versionNum\<close> is \<open>parseInt(version)\<close>:
  \<open>None\<close> stands for \<open>NaN\<close>, which the Prisma query refuses (the handler's \<open>catch\<close>
  answers 500).
\<close>

definition restoreVersion :: "db \<Rightarrow> user \<Rightarrow> string \<Rightarrow> int option \<Rightarrow> response \<times> db" where
  "restoreVersion d reqUser cid versionNum =
     (case findOwnedContract d cid (user_id reqUser) of
        None \<Rightarrow> ((403, ErrorBody ''Only owner can restore versions''), d)
      | Some c \<Rightarrow>
          (case versionNum of
             None \<Rightarrow> ((500, ErrorBody ''Failed to restore version''), d)
           | Some v \<Rightarrow>
               (case findVersion d cid v of
                  None \<Rightarrow> ((404, ErrorBody ''Version not found''), d)
                | Some historicalVersion \<Rightarrow>
                    (case createContractVersion
                            \<lparr>cv_contractId = contract_id c, cv_version = contract_version c,
                             cv_s3Key = contract_s3Key c,
                             cv_changeNote = ''Before restoring to v'' @ showInt v,
                             cv_createdById = user_id reqUser\<rparr> d of
                       None \<Rightarrow> ((500, ErrorBody ''Failed to restore version''), d)
                     | Some d1 \<Rightarrow>
                         ((200, VersionBody (''Restored to version '' @ showInt v)
                                  (contract_version c + 1)),
                          updateContract cid
                            (\<lambda>r. r\<lparr>contract_s3Key := cv_s3Key historicalVersion,
                                    contract_version := contract_version c + 1\<rparr>) d1)))))"

section \<open>The permissions router\<close>

definition findUserByEmail :: "db \<Rightarrow> string \<Rightarrow> user option" where
  "findUserByEmail d email = find (\<lambda>u. user_email u = email) (users d)"

definition findUserById :: "db \<Rightarrow> string \<Rightarrow> user option" where
  "findUserById d uid = find (\<lambda>u. user_id u = uid) (users d)"

definition findPermissionByPair :: "db \<Rightarrow> string \<Rightarrow> string \<Rightarrow> permission option" where
  "findPermissionByPair d cid uid =
     find (\<lambda>p. perm_contractId p = cid \<and> perm_userId p = uid) (permissions d)"

definition findPermission :: "db \<Rightarrow> string \<Rightarrow> permission option" where
  "findPermission d pid = find (\<lambda>p. perm_id p = pid) (permissions d)"

definition updatePermissionRole :: "string \<Rightarrow> Role \<Rightarrow> db \<Rightarrow> db" where
  "updatePermissionRole pid r d =
     d\<lparr>permissions := map (\<lambda>p. if perm_id p = pid then p\<lparr>perm_role := r\<rparr> else p) (permissions d)\<rparr>"

text \<open>\<open>include: { user: { select: { id, name, email } } }\<close>\<close>

definition userSummary :: "db \<Rightarrow> string \<Rightarrow> (string \<times> string \<times> string) option" where
  "userSummary d uid =
     map_option (\<lambda>u. (user_id u, user_name u, user_email u)) (findUserById d uid)"

text \<open>
  \<open>POST /:contractId\<close> (invite). \<open>parsed\<close> is what \<open>inviteSchema.parse\<close> returns
  (\<open>None\<close> when it throws a \<open>ZodError\<close>); \<open>newId\<close> is the id Prisma generates for a
  new row, refused (the call throws, the \<open>catch\<close> answers 500) when a row has it
  already.
\<close>

definition inviteUser ::
  "db \<Rightarrow> user \<Rightarrow> string \<Rightarrow> (string \<times> Role) option \<Rightarrow> string \<Rightarrow> response \<times> db" where
  "inviteUser d reqUser cid parsed newId =
     (case parsed of
        None \<Rightarrow> ((400, ZodErrorBody), d)
      | Some (email, role) \<Rightarrow>
          (case findOwnedContract d cid (user_id reqUser) of
             None \<Rightarrow> ((403, ErrorBody ''Only contract owner can invite users''), d)
           | Some c \<Rightarrow>
               (case findUserByEmail d email of
                  None \<Rightarrow> ((404, ErrorBody ''User not found. They must register first.''), d)
                | Some invitedUser \<Rightarrow>
                    if user_id invitedUser = user_id reqUser
                    then ((400, ErrorBody ''Cannot invite yourself''), d)
                    else
                      (case findPermissionByPair d cid (user_id invitedUser) of
                         Some existing \<Rightarrow>
                           ((200, PermissionBody (existing\<lparr>perm_role := role\<rparr>)
                                    (userSummary d (perm_userId existing))),
                            updatePermissionRole (perm_id existing) role d)
                       | None \<Rightarrow>
                           if list_ex (\<lambda>p. perm_id p = newId) (permissions d)
                           then ((500, ErrorBody ''Failed to invite user''), d)
                           else
                             let permission = \<lparr>perm_id = newId, perm_contractId = cid,
                                               perm_userId = user_id invitedUser,
                                               perm_role = role\<rparr>
                             in ((201, PermissionBody permission
                                         (userSummary d (user_id invitedUser))),
                                 d\<lparr>permissions := permissions d @ [permission]\<rparr>)))))"

text \<open>
  \<open>PATCH /:permissionId\<close>. \<open>permission.contract\<close> is the included parent row; reading
  \<open>ownerId\<close> off a missing one throws, and the \<open>catch\<close> answers 500.
\<close>

definition updatePermission :: "db \<Rightarrow> user \<Rightarrow> string \<Rightarrow> Role option \<Rightarrow> response \<times> db" where
  "updatePermission d reqUser pid parsed =
     (case parsed of
        None \<Rightarrow> ((400, ZodErrorBody), d)
      | Some role \<Rightarrow>
          (case findPermission d pid of
             None \<Rightarrow> ((404, ErrorBody ''Permission not found''), d)
           | Some permission \<Rightarrow>
               (case findContract d (perm_contractId permission) of
                  None \<Rightarrow> ((500, ErrorBody ''Failed to update permission''), d)
                | Some c \<Rightarrow>
                    if contract_ownerId c \<noteq> user_id reqUser
                    then ((403, ErrorBody ''Only owner can modify permissions''), d)
                    else ((200, PermissionBody (permission\<lparr>perm_role := role\<rparr>)
                                  (userSummary d (perm_userId permission))),
                          updatePermissionRole pid role d))))"

text \<open>\<open>DELETE /:permissionId\<close>: the owner removes anyone, a user removes their own grant.\<close>

definition removePermission :: "db \<Rightarrow> user \<Rightarrow> string \<Rightarrow> response \<times> db" where
  "removePermission d reqUser pid =
     (case findPermission d pid of
        None \<Rightarrow> ((404, ErrorBody ''Permission not found''), d)
      | Some permission \<Rightarrow>
          (case findContract d (perm_contractId permission) of
             None \<Rightarrow> ((500, ErrorBody ''Failed to remove permission''), d)
           | Some c \<Rightarrow>
               if contract_ownerId c \<noteq> user_id reqUser \<and> perm_userId permission \<noteq> user_id reqUser
               then ((403, ErrorBody ''Cannot remove this permission''), d)
               else ((200, SuccessBody),
                     d\<lparr>permissions := filter (\<lambda>p. perm_id p \<noteq> pid) (permissions d)\<rparr>)))"

section \<open>The auth router\<close>

text \<open>
  The libraries the router calls, as parameters: \<open>jwt.sign\<close> and \<open>jwt.verify\<close> under
  the server's secret, \<open>bcrypt.hash\<close> (with the salt it draws) and \<open>bcrypt.compare\<close>,
  and zod's e-mail test.
\<close>

record authEnv =
  jwtSign :: "string \<Rightarrow> string"
  jwtVerify :: "string \<Rightarrow> string option"
  bcryptHash :: "string \<Rightarrow> string"
  bcryptCompare :: "string \<Rightarrow> string \<Rightarrow> bool"
  isEmail :: "string \<Rightarrow> bool"

text \<open>A JavaScript object with string fields, as its list of (key, value) entries.\<close>

type_synonym object = "(string \<times> string) list"

datatype authBody =
    AuthError string
  | AuthOk string object
  | UserBody object

text \<open>The row \<open>prisma.user\<close> returns, as the object the handlers destructure.\<close>

definition userObject :: "user \<Rightarrow> object" where
  "userObject u =
     [(''id'', user_id u), (''email'', user_email u), (''passwordHash'', user_passwordHash u),
      (''name'', user_name u), (''color'', user_color u)]"

text \<open>\<open>const { key, ...rest } = obj\<close>\<close>

definition restWithout :: "string \<Rightarrow> object \<Rightarrow> object" where
  "restWithout key obj = filter (\<lambda>(k, _). k \<noteq> key) obj"

text \<open>
  \<open>POST /register\<close>. The body's fields are \<open>None\<close> when missing or not strings;
  \<open>rnd\<close> is \<open>Math.floor(Math.random() * 16777215)\<close> and \<open>newId\<close> the id Prisma
  generates (a clash throws, and the \<open>catch\<close> answers 400 like every other failure).
\<close>

definition registerSchema :: "authEnv \<Rightarrow> string option \<times> string option \<times> string option
    \<Rightarrow> (string \<times> string \<times> string) option" where
  "registerSchema env b =
     (case b of
        (Some email, Some password, Some name) \<Rightarrow>
          if isEmail env email \<and> 6 \<le> length password \<and> 2 \<le> length name
          then Some (email, password, name) else None
      | _ \<Rightarrow> None)"

definition register ::
  "authEnv \<Rightarrow> db \<Rightarrow> string option \<times> string option \<times> string option \<Rightarrow> nat \<Rightarrow> string
    \<Rightarrow> (nat \<times> authBody) \<times> db" where
  "register env d b rnd newId =
     (case registerSchema env b of
        None \<Rightarrow> ((400, AuthError ''Invalid input''), d)
      | Some (email, password, name) \<Rightarrow>
          (case findUserByEmail d email of
             Some existing \<Rightarrow> ((400, AuthError ''User already exists''), d)
           | None \<Rightarrow>
               let passwordHash = bcryptHash env password;
                   color = ''#'' @ showHex rnd
               in if list_ex (\<lambda>u. user_id u = newId) (users d)
                  then ((400, AuthError ''Invalid input''), d)
                  else
                    let user = \<lparr>user_id = newId, user_email = email,
                                user_passwordHash = passwordHash, user_name = name,
                                user_color = color\<rparr>
                    in ((200, AuthOk (jwtSign env (user_id user))
                                [(''id'', user_id user), (''email'', email), (''name'', name),
                                 (''color'', color)]),
                        d\<lparr>users := users d @ [user]\<rparr>)))"

definition loginSchema :: "authEnv \<Rightarrow> string option \<times> string option \<Rightarrow> (string \<times> string) option" where
  "loginSchema env b =
     (case b of
        (Some email, Some password) \<Rightarrow> if isEmail env email then Some (email, password) else None
      | _ \<Rightarrow> None)"

text \<open>\<open>POST /login\<close>: it reads the database and writes nothing.\<close>

definition login :: "authEnv \<Rightarrow> db \<Rightarrow> string option \<times> string option \<Rightarrow> nat \<times> authBody" where
  "login env d b =
     (case loginSchema env b of
        None \<Rightarrow> (400, AuthError ''Invalid input'')
      | Some (email, password) \<Rightarrow>
          (case findUserByEmail d email of
             None \<Rightarrow> (401, AuthError ''Invalid credentials'')
           | Some user \<Rightarrow>
               if \<not> bcryptCompare env password (user_passwordHash user)
               then (401, AuthError ''Invalid credentials'')
               else (200, AuthOk (jwtSign env (user_id user))
                            [(''id'', user_id user), (''email'', user_email user),
                             (''name'', user_name user), (''color'', user_color user)])))"

text \<open>
  The \<open>authenticate\<close> middleware: the bearer token of the request (\<open>None\<close> when the
  header carries none) is verified and its subject looked up; \<open>Inr\<close> is \<open>req.user\<close>.
\<close>

definition authenticate :: "authEnv \<Rightarrow> db \<Rightarrow> string option \<Rightarrow> (nat \<times> authBody) + user" where
  "authenticate env d token =
     (case token of
        None \<Rightarrow> Inl (401, AuthError ''Authentication required'')
      | Some t \<Rightarrow>
          if t = [] then Inl (401, AuthError ''Authentication required'')
          else
            (case jwtVerify env t of
               None \<Rightarrow> Inl (401, AuthError ''Invalid token'')
             | Some sub \<Rightarrow>
                 (case findUserById d sub of
                    None \<Rightarrow> Inl (401, AuthError ''User not found'')
                  | Some user \<Rightarrow> Inr user)))"

text \<open>\<open>GET /me\<close>\<close>

definition me :: "authEnv \<Rightarrow> db \<Rightarrow> string option \<Rightarrow> nat \<times> authBody" where
  "me env d token =
     (case authenticate env d token of
        Inl r \<Rightarrow> r
      | Inr reqUser \<Rightarrow> (200, UserBody (restWithout ''passwordHash'' (userObject reqUser))))"

section \<open>The document cache (\<open>services/yjs.ts\<close>)\<close>

text \<open>
  Yjs, \<open>Buffer\<close> and Redis are libraries: the document type \<open>'d\<close> and the operations
  on it are parameters. \<open>emitsUpdate\<close> says whether applying an update to a document
  makes it emit its \<open>update\<close> event.
\<close>

record 'd yjs =
  newDoc :: 'd
  applyUpdate :: "'d \<Rightarrow> string \<Rightarrow> 'd"
  emitsUpdate :: "'d \<Rightarrow> string \<Rightarrow> bool"
  encodeStateAsUpdate :: "'d \<Rightarrow> string"
  toBase64 :: "string \<Rightarrow> string"
  fromBase64 :: "string \<Rightarrow> string"

text \<open>
  A \<open>Y.Doc\<close> object: its state and the handlers \<open>doc.on('update', ...)\<close> has
  registered on it, each the document id its closure captured.
\<close>

record 'd ydoc =
  ydoc_state :: 'd
  ydoc_onUpdate :: "string list"

datatype outMsg =
    SyncMsg string
  | UpdateMsg string
  | CursorMsg string string string string

text \<open>
  The serving process. \<open>Y.Doc\<close> objects live in \<open>heap\<close> and are referred to by their
  index; \<open>docs\<close> is the module's \<open>Map\<close> from document id to object. \<open>redis\<close> is the
  store as the commands issued so far leave it (one connection, commands served in the
  order issued), \<open>redisReads\<close> the \<open>getBuffer\<close> commands issued, \<open>redisWrites\<close> the
  \<open>set\<close> commands whose reply is still awaited. \<open>pendingJoins\<close> are the
  \<open>join-contract\<close> handlers suspended at \<open>await redis.getBuffer\<close>, each with its
  socket, contract id, new document and the reply on its way. \<open>sent\<close> lists the
  messages emitted, with the socket each goes to.
\<close>

record 'd server =
  sockets :: "(nat \<times> user) list"
  heap :: "'d ydoc list"
  docs :: "(string \<times> nat) list"
  redis :: "(string \<times> string) list"
  redisReads :: "string list"
  redisWrites :: "string list"
  rooms :: "(nat \<times> string) list"
  updateListeners :: "(nat \<times> string \<times> nat) list"
  cursorListeners :: "(nat \<times> string) list"
  pendingJoins :: "(nat \<times> string \<times> nat \<times> string option) list"
  sent :: "(nat \<times> outMsg) list"

definition mapSet :: "'k \<Rightarrow> 'v \<Rightarrow> ('k \<times> 'v) list \<Rightarrow> ('k \<times> 'v) list" where
  "mapSet k v m = (k, v) # filter (\<lambda>(k', _). k' \<noteq> k) m"

definition docKey :: "string \<Rightarrow> string" where
  "docKey docId = ''yjs:doc:'' @ docId"

text \<open>
  The \<open>update\<close> handler \<open>getYjsDoc\<close> registers: it encodes the document and issues
  \<open>redis.set\<close> at once.
\<close>

definition saveDoc :: "'d yjs \<Rightarrow> 'd \<Rightarrow> 'd server \<Rightarrow> string \<Rightarrow> 'd server" where
  "saveDoc y st s docId =
     s\<lparr>redis := mapSet (docKey docId) (encodeStateAsUpdate y st) (redis s),
       redisWrites := redisWrites s @ [docKey docId]\<rparr>"

text \<open>
  \<open>Y.applyUpdate(doc, u)\<close> on the document at index \<open>a\<close>: the state changes and, when
  the document emits \<open>update\<close>, its handlers run in the order registered.
\<close>

definition applyUpdateAt :: "'d yjs \<Rightarrow> nat \<Rightarrow> string \<Rightarrow> 'd server \<Rightarrow> 'd server" where
  "applyUpdateAt y a u s =
     (if a < length (heap s) then
        let doc = heap s ! a;
            st' = applyUpdate y (ydoc_state doc) u;
            s1 = s\<lparr>heap := (heap s)[a := doc\<lparr>ydoc_state := st'\<rparr>]\<rparr>
        in if emitsUpdate y (ydoc_state doc) u
           then foldl (saveDoc y st') s1 (ydoc_onUpdate doc)
           else s1
      else s)"

text \<open>
  \<open>getYjsDoc\<close> up to its \<open>await\<close>: a cached document is returned; otherwise a new
  \<open>Y.Doc\<close> is constructed and the read of the store issued, and the call suspends.
\<close>

datatype getDoc = Cached nat | Awaiting nat "string option"

definition getYjsDocBegin :: "'d yjs \<Rightarrow> string \<Rightarrow> 'd server \<Rightarrow> getDoc \<times> 'd server" where
  "getYjsDocBegin y docId s =
     (case map_of (docs s) docId of
        Some a \<Rightarrow> (Cached a, s)
      | None \<Rightarrow>
          (Awaiting (length (heap s)) (map_of (redis s) (docKey docId)),
           s\<lparr>heap := heap s @ [\<lparr>ydoc_state = newDoc y, ydoc_onUpdate = []\<rparr>],
             redisReads := redisReads s @ [docKey docId]\<rparr>))"

text \<open>
  \<open>getYjsDoc\<close> after its \<open>await\<close>: the stored state, if any, is applied to the new
  document, the document is put into \<open>docs\<close> and the \<open>update\<close> handler registered.
\<close>

definition getYjsDocResume :: "'d yjs \<Rightarrow> string \<Rightarrow> nat \<Rightarrow> string option \<Rightarrow> 'd server \<Rightarrow> 'd server" where
  "getYjsDocResume y docId a stored s =
     (let s1 = (case stored of None \<Rightarrow> s | Some b \<Rightarrow> applyUpdateAt y a b s);
          s2 = s1\<lparr>docs := mapSet docId a (docs s1)\<rparr>
      in s2\<lparr>heap := (heap s2)[a := (heap s2 ! a)
                 \<lparr>ydoc_onUpdate := ydoc_onUpdate (heap s2 ! a) @ [docId]\<rparr>]\<rparr>)"

section \<open>The socket handler (\<open>socket/index.ts\<close>)\<close>

text \<open>
  The handshake middleware: the token is verified and the user row attached to the
  socket; a refused handshake leaves no socket.
\<close>

definition connectSocket ::
  "authEnv \<Rightarrow> db \<Rightarrow> nat \<Rightarrow> string option \<Rightarrow> 'd server \<Rightarrow> string + 'd server" where
  "connectSocket env d sock token s =
     (case token of
        None \<Rightarrow> Inl ''Authentication required''
      | Some t \<Rightarrow>
          if t = [] then Inl ''Authentication required''
          else
            (case jwtVerify env t of
               None \<Rightarrow> Inl ''Invalid token''
             | Some sub \<Rightarrow>
                 (case findUserById d sub of
                    None \<Rightarrow> Inl ''User not found''
                  | Some user \<Rightarrow> Inr (s\<lparr>sockets := mapSet sock user (sockets s)\<rparr>))))"

definition roomName :: "string \<Rightarrow> string" where
  "roomName contractId = ''contract:'' @ contractId"

text \<open>\<open>socket.join(room)\<close>\<close>

definition socketJoin :: "nat \<Rightarrow> string \<Rightarrow> 'd server \<Rightarrow> 'd server" where
  "socketJoin sock room s =
     (if (sock, room) \<in> set (rooms s) then s else s\<lparr>rooms := rooms s @ [(sock, room)]\<rparr>)"

text \<open>\<open>socket.to(room).emit(...)\<close>: every member of the room but the sender.\<close>

definition roomOthers :: "nat \<Rightarrow> string \<Rightarrow> 'd server \<Rightarrow> nat list" where
  "roomOthers sock room s = map fst (filter (\<lambda>(m, r). r = room \<and> m \<noteq> sock) (rooms s))"

definition socketToEmit :: "nat \<Rightarrow> string \<Rightarrow> outMsg \<Rightarrow> 'd server \<Rightarrow> 'd server" where
  "socketToEmit sock room msg s =
     s\<lparr>sent := sent s @ map (\<lambda>m. (m, msg)) (roomOthers sock room s)\<rparr>"

text \<open>
  The \<open>join-contract\<close> handler once \<open>getYjsDoc\<close> has returned the document at \<open>a\<close>:
  the state goes to the requester and the socket gets its \<open>update\<close> and \<open>cursor\<close>
  listeners.
\<close>

definition joinContinue :: "'d yjs \<Rightarrow> nat \<Rightarrow> string \<Rightarrow> nat \<Rightarrow> 'd server \<Rightarrow> 'd server" where
  "joinContinue y sock contractId a s =
     s\<lparr>sent := sent s @
          [(sock, SyncMsg (toBase64 y (encodeStateAsUpdate y (ydoc_state (heap s ! a)))))],
       updateListeners := updateListeners s @ [(sock, contractId, a)],
       cursorListeners := cursorListeners s @ [(sock, contractId)]\<rparr>"

definition joinContract :: "'d yjs \<Rightarrow> nat \<Rightarrow> string \<Rightarrow> 'd server \<Rightarrow> 'd server" where
  "joinContract y sock contractId s =
     (let s1 = socketJoin sock (roomName contractId) s in
      case getYjsDocBegin y contractId s1 of
        (Cached a, s2) \<Rightarrow> joinContinue y sock contractId a s2
      | (Awaiting a stored, s2) \<Rightarrow>
          s2\<lparr>pendingJoins := pendingJoins s2 @ [(sock, contractId, a, stored)]\<rparr>)"

text \<open>The reply to the oldest outstanding \<open>getBuffer\<close> resumes the handler that awaits it.\<close>

definition redisGetReply :: "'d yjs \<Rightarrow> 'd server \<Rightarrow> 'd server" where
  "redisGetReply y s =
     (case pendingJoins s of
        [] \<Rightarrow> s
      | (sock, contractId, a, stored) # rest \<Rightarrow>
          joinContinue y sock contractId a
            (getYjsDocResume y contractId a stored (s\<lparr>pendingJoins := rest\<rparr>)))"

text \<open>One \<open>update\<close> listener of a socket, on the payload \<open>updateBase64\<close>.\<close>

definition onUpdate :: "'d yjs \<Rightarrow> nat \<Rightarrow> string \<Rightarrow> 'd server \<Rightarrow> string \<times> nat \<Rightarrow> 'd server" where
  "onUpdate y sock updateBase64 s l =
     (case l of (contractId, a) \<Rightarrow>
        socketToEmit sock (roomName contractId) (UpdateMsg updateBase64)
          (applyUpdateAt y a (fromBase64 y updateBase64) s))"

definition listenersOf :: "nat \<Rightarrow> (nat \<times> 'a) list \<Rightarrow> 'a list" where
  "listenersOf sock ls = map snd (filter (\<lambda>(m, _). m = sock) ls)"

text \<open>The socket receives \<open>update\<close>: each of its listeners runs, in the order registered.\<close>

definition clientUpdate :: "'d yjs \<Rightarrow> nat \<Rightarrow> string \<Rightarrow> 'd server \<Rightarrow> 'd server" where
  "clientUpdate y sock updateBase64 s =
     foldl (onUpdate y sock updateBase64) s (listenersOf sock (updateListeners s))"

definition onCursor :: "user \<Rightarrow> nat \<Rightarrow> string \<Rightarrow> 'd server \<Rightarrow> string \<Rightarrow> 'd server" where
  "onCursor u sock position s contractId =
     socketToEmit sock (roomName contractId)
       (CursorMsg (user_id u) (user_name u) (user_color u) position) s"

definition clientCursor :: "nat \<Rightarrow> string \<Rightarrow> 'd server \<Rightarrow> 'd server" where
  "clientCursor sock position s =
     (case map_of (sockets s) sock of
        None \<Rightarrow> s
      | Some u \<Rightarrow> foldl (onCursor u sock position) s (listenersOf sock (cursorListeners s)))"

text \<open>The reply to the oldest \<open>redis.set\<close> in flight.\<close>

definition redisSetReply :: "'d server \<Rightarrow> 'd server" where
  "redisSetReply s = s\<lparr>redisWrites := tl (redisWrites s)\<rparr>"

text \<open>
  The event loop: one event is handled to its next \<open>await\<close> before the next is taken.
  Events of a socket that is not connected reach no handler.
\<close>

datatype event =
    JoinContract nat string
  | ClientUpdate nat string
  | ClientCursor nat string
  | RedisGetReply
  | RedisSetReply

fun step :: "'d yjs \<Rightarrow> 'd server \<Rightarrow> event \<Rightarrow> 'd server" where
  "step y s (JoinContract sock contractId) =
     (if map_of (sockets s) sock = None then s else joinContract y sock contractId s)"
| "step y s (ClientUpdate sock u) =
     (if map_of (sockets s) sock = None then s else clientUpdate y sock u s)"
| "step y s (ClientCursor sock position) = clientCursor sock position s"
| "step y s RedisGetReply = redisGetReply y s"
| "step y s RedisSetReply = redisSetReply s"

definition run :: "'d yjs \<Rightarrow> 'd server \<Rightarrow> event list \<Rightarrow> 'd server" where
  "run y s evs = foldl (step y) s evs"

definition emptyServer :: "'d server" where
  "emptyServer =
     \<lparr>sockets = [], heap = [], docs = [], redis = [], redisReads = [], redisWrites = [],
      rooms = [], updateListeners = [], cursorListeners = [], pendingJoins = [], sent = []\<rparr>"

section \<open>Invariants of the tables\<close>

text \<open>The primary key of the contract table.\<close>

definition contractIdsUnique :: "db \<Rightarrow> bool" where
  "contractIdsUnique d = distinct (map contract_id (contracts d))"

text \<open>At most one grant for each (document, user) pair.\<close>

definition grantPair :: "permission \<Rightarrow> string \<times> string" where
  "grantPair p = (perm_contractId p, perm_userId p)"

definition uniqueGrants :: "db \<Rightarrow> bool" where
  "uniqueGrants d = distinct (map grantPair (permissions d))"

text \<open>No snapshot of a document carries a version number above the document's own.\<close>

definition snapshotsBounded :: "db \<Rightarrow> bool" where
  "snapshotsBounded d =
     list_all (\<lambda>c. list_all (\<lambda>s. cv_contractId s = contract_id c \<longrightarrow> cv_version s \<le> contract_version c)
                      (contractVersions d)) (contracts d)"

text \<open>The version numbers the snapshots of a document use.\<close>

definition snapshotVersions :: "db \<Rightarrow> string \<Rightarrow> int list" where
  "snapshotVersions d cid = map cv_version (filter (\<lambda>s. cv_contractId s = cid) (contractVersions d))"

section \<open>Databases that differ in the password hashes only\<close>

text \<open>
  The database with every stored password hash replaced: user \<open>u\<close> gets the hash
  \<open>g u\<close>, and nothing else differs.
\<close>

definition rehash :: "(user \<Rightarrow> string) \<Rightarrow> db \<Rightarrow> db" where
  "rehash g d = d\<lparr>users := map (\<lambda>u. u\<lparr>user_passwordHash := g u\<rparr>) (users d)\<rparr>"

text \<open>The same libraries with another \<open>bcrypt\<close>.\<close>

definition withBcrypt :: "(string \<Rightarrow> string) \<Rightarrow> (string \<Rightarrow> string \<Rightarrow> bool) \<Rightarrow> authEnv \<Rightarrow> authEnv" where
  "withBcrypt h c env = env\<lparr>bcryptHash := h, bcryptCompare := c\<rparr>"

text \<open>The keys of an object, in order.\<close>

definition keys :: "object \<Rightarrow> string list" where
  "keys obj = map fst obj"

section \<open>Invariants of the process\<close>

text \<open>
  A series of handshakes, each a socket with the token it presents; a refused one
  leaves the process as it was.
\<close>

definition handshakes ::
  "authEnv \<Rightarrow> db \<Rightarrow> (nat \<times> string option) list \<Rightarrow> 'd server \<Rightarrow> 'd server" where
  "handshakes env d hs s =
     foldl (\<lambda>s (sock, token).
              case connectSocket env d sock token s of Inl _ \<Rightarrow> s | Inr s' \<Rightarrow> s') s hs"

text \<open>
  The document addresses a process holds (in \<open>docs\<close>, in the \<open>update\<close> listeners and
  in the suspended joins) are addresses of allocated documents.
\<close>

definition addressesValid :: "'d server \<Rightarrow> bool" where
  "addressesValid s =
     (list_all (\<lambda>(_, a). a < length (heap s)) (docs s) \<and>
      list_all (\<lambda>(_, _, a). a < length (heap s)) (updateListeners s) \<and>
      list_all (\<lambda>(_, _, a, _). a < length (heap s)) (pendingJoins s))"

text \<open>
  How \<open>getYjsDoc\<close> wires the documents: a document still awaited by a suspended join
  has no \<open>update\<close> handler yet, no two suspended joins await the same document, and
  the document of every entry of \<open>docs\<close> and of every \<open>update\<close> listener carries
  exactly the handler that saves it under that entry's or listener's contract id.
\<close>

definition wired :: "'d server \<Rightarrow> bool" where
  "wired s =
     (addressesValid s \<and>
      distinct (map (\<lambda>(_, _, a, _). a) (pendingJoins s)) \<and>
      list_all (\<lambda>(_, _, a, _). ydoc_onUpdate (heap s ! a) = []) (pendingJoins s) \<and>
      list_all (\<lambda>(cid, a). ydoc_onUpdate (heap s ! a) = [cid]) (docs s) \<and>
      list_all (\<lambda>(_, cid, a). ydoc_onUpdate (heap s ! a) = [cid]) (updateListeners s))"

section \<open>A concrete deployment\<close>

text \<open>
  Alice owns the contract \<open>c1\<close>, now at version 2; Bob holds an ADMIN grant on it and
  Carol a VIEWER grant; Dave holds none.
\<close>

definition alice :: user where
  "alice = \<lparr>user_id = ''u1'', user_email = ''alice@example.org'', user_passwordHash = ''s1:wonderland'',
            user_name = ''Alice'', user_color = ''#1f77b4''\<rparr>"

definition bob :: user where
  "bob = \<lparr>user_id = ''u2'', user_email = ''bob@example.org'', user_passwordHash = ''s2:builder'',
          user_name = ''Bob'', user_color = ''#ff7f0e''\<rparr>"

definition carol :: user where
  "carol = \<lparr>user_id = ''u3'', user_email = ''carol@example.org'', user_passwordHash = ''s3:singing'',
            user_name = ''Carol'', user_color = ''#2ca02c''\<rparr>"

definition dave :: user where
  "dave = \<lparr>user_id = ''u4'', user_email = ''dave@example.org'', user_passwordHash = ''s4:diving'',
           user_name = ''Dave'', user_color = ''#d62728''\<rparr>"

definition lease :: contract where
  "lease = \<lparr>contract_id = ''c1'', contract_title = ascii ''Lease'',
            contract_s3Key = ''contracts/c1/v2-1700.pdf'', contract_ownerId = ''u1'',
            contract_version = 2, contract_fileSize = 4\<rparr>"

definition leaseV1 :: contractVersion where
  "leaseV1 = \<lparr>cv_contractId = ''c1'', cv_version = 1, cv_s3Key = ''contracts/1600-lease.pdf'',
              cv_changeNote = ''Version 1'', cv_createdById = ''u1''\<rparr>"

definition bobGrant :: permission where
  "bobGrant = \<lparr>perm_id = ''p1'', perm_contractId = ''c1'', perm_userId = ''u2'', perm_role = ADMIN\<rparr>"

definition carolGrant :: permission where
  "carolGrant = \<lparr>perm_id = ''p2'', perm_contractId = ''c1'', perm_userId = ''u3'', perm_role = VIEWER\<rparr>"

definition office :: db where
  "office = \<lparr>users = [alice, bob, carol, dave], contracts = [lease],
             contractVersions = [leaseV1], permissions = [bobGrant, carolGrant],
             s3 = [(''contracts/c1/v2-1700.pdf'', ''PDF-B''), (''contracts/1600-lease.pdf'', ''PDF-A'')]\<rparr>"

definition newPdf :: uploadedFile where
  "newPdf = \<lparr>file_buffer = ''PDF-C'', file_mimetype = ''application/pdf'', file_size = 5\<rparr>"

text \<open>
  Libraries for the concrete runs. Tokens are the subject behind a prefix; a hash is
  a salt, a colon and the password; every string with an \<open>@\<close> passes for an e-mail
  address.
\<close>

definition plainAuth :: authEnv where
  "plainAuth = \<lparr>jwtSign = (\<lambda>sub. ''jwt:'' @ sub),
                jwtVerify = (\<lambda>t. if take 4 t = ''jwt:'' then Some (drop 4 t) else None),
                bcryptHash = (\<lambda>p. ''s0:'' @ p),
                bcryptCompare = (\<lambda>p h. drop 3 h = p),
                isEmail = (\<lambda>e. CHR ''@'' \<in> set e)\<rparr>"

text \<open>
  A document substrate for the concrete runs: a grow-only set of characters. An update
  is the characters to add, the encoded state the characters held, and a document
  emits \<open>update\<close> when an update adds a character.
\<close>

definition charSetYjs :: "string yjs" where
  "charSetYjs = \<lparr>newDoc = [],
                 applyUpdate = (\<lambda>d u. d @ filter (\<lambda>c. c \<notin> set d) (remdups u)),
                 emitsUpdate = (\<lambda>d u. \<not> set u \<subseteq> set d),
                 encodeStateAsUpdate = (\<lambda>d. d),
                 toBase64 = (\<lambda>b. b),
                 fromBase64 = (\<lambda>t. t)\<rparr>"

text \<open>
  The process after Alice has connected on socket 1, Carol on socket 2 and Dave on
  socket 3, each with their own token.
\<close>

definition connected :: "string server" where
  "connected =
     handshakes plainAuth office
       [(1, Some ''jwt:u1''), (2, Some ''jwt:u3''), (3, Some ''jwt:u4'')] emptyServer"

text \<open>
  Alice has joined \<open>c1\<close> and sent one update; the write it caused is still in flight.
\<close>

definition aliceEditing :: "string server" where
  "aliceEditing =
     run charSetYjs connected [JoinContract 1 ''c1'', RedisGetReply, ClientUpdate 1 ''a'']"

section \<open>Lookups by key\<close>

lemma find_Some_set: "find P xs = Some x \<Longrightarrow> x \<in> set xs \<and> P x"
  by (induction xs) (auto split: if_splits)

lemma find_key_refine_None:
  assumes "distinct (map k xs)" "find (\<lambda>x. k x = i) xs = Some x" "\<not> Q x"
  shows "find (\<lambda>x. k x = i \<and> Q x) xs = None"
  using assms by (induction xs) (auto split: if_splits simp: find_None_iff image_iff)

lemma find_key_refine_Some:
  assumes "find (\<lambda>x. k x = i) xs = Some x" "Q x"
  shows "find (\<lambda>x. k x = i \<and> Q x) xs = Some x"
  using assms by (induction xs) (auto split: if_splits)

lemma find_key_refine_eq:
  assumes "distinct (map k xs)" "find (\<lambda>x. k x = i) xs = Some x"
    "find (\<lambda>x. k x = i \<and> Q x) xs = Some x'"
  shows "x' = x"
proof -
  have "x \<in> set xs \<and> k x = i" using find_Some_set[OF assms(2)] by simp
  moreover have "x' \<in> set xs \<and> k x' = i" using find_Some_set[OF assms(3)] by simp
  moreover have "inj_on k (set xs)" using assms(1) by (simp add: distinct_map)
  ultimately show ?thesis by (auto dest: inj_onD)
qed

lemma find_key_map_update:
  assumes "find (\<lambda>x. k x = i) xs = Some x" "\<And>z. k (f z) = k z"
  shows "find (\<lambda>x. k x = i) (map (\<lambda>x. if k x = i then f x else x) xs) = Some (f x)"
  using assms by (induction xs) (auto split: if_splits)

lemma find_key_filter_out: "find (\<lambda>x. k x = i) (filter (\<lambda>x. k x \<noteq> i) xs) = None"
  by (simp add: find_None_iff)

lemma findOwnedContract_nonowner:
  assumes "contractIdsUnique d" "findContract d cid = Some c" "contract_ownerId c \<noteq> uid"
  shows "findOwnedContract d cid uid = None"
  using assms unfolding contractIdsUnique_def findContract_def findOwnedContract_def
  by (rule find_key_refine_None)

lemma findOwnedContract_owner:
  assumes "findContract d cid = Some c" "contract_ownerId c = uid"
  shows "findOwnedContract d cid uid = Some c"
  using assms unfolding findContract_def findOwnedContract_def
  by (rule find_key_refine_Some)

lemma findContract_updateContract:
  assumes "findContract d cid = Some c" "\<And>z. contract_id (f z) = contract_id z"
  shows "findContract (updateContract cid f d) cid = Some (f c)"
  using assms unfolding findContract_def updateContract_def
  by (simp add: find_key_map_update)

lemmas office_defs =
  office_def lease_def leaseV1_def bobGrant_def carolGrant_def
  alice_def bob_def carol_def dave_def newPdf_def

section \<open>Rename, delete and restore are the owner's\<close>

lemma trim_Nil [simp]: "trim [] = []"
  by (simp add: trim_def)

lemma map_of_deleteFromS3: "map_of (deleteFromS3 key bucket) key = None"
  by (induction bucket) (auto simp: deleteFromS3_def)

lemma findContract_archived:
  "findContract (d\<lparr>contractVersions := vs\<rparr>) cid = findContract d cid"
  by (simp add: findContract_def)

text \<open>
  Claim C6. Let \<open>c\<close> be the document with id \<open>cid\<close>. For a requesting user who is not
  its owner, whatever grants the database holds (an ADMIN grant included): rename is
  answered 403 (400 when the title is missing or blank), delete and restore are
  answered 403, and each leaves the whole database, so the document's title, blob
  reference and version, as it was. For the owner the three are carried out. Rename
  with a title that is not blank is answered 200 and stores the trimmed title (a
  missing or blank title is answered 400 and changes nothing). Delete is answered 200
  and removes the document and its blob. Restore of an existing snapshot \<open>n\<close> is
  answered 200, archives the current state and leaves the document on the snapshot's
  blob at the next version; the owner's restore is otherwise answered only by what
  the request itself lacks: 500 for a version that is not a number, 404 for a snapshot
  that does not exist, 500 when the archive already holds the current version.
\<close>

theorem rename_delete_restore_owner_only:
  assumes pk: "contractIdsUnique d"
    and doc: "findContract d cid = Some c"
  shows "(contract_ownerId c \<noteq> user_id u \<longrightarrow>
            (title = None \<or> (\<exists>t. title = Some t \<and> trim t = []) \<longrightarrow>
               renameContract d u cid title = ((400, ErrorBody ''Title is required''), d)) \<and>
            (\<forall>t. title = Some t \<and> trim t \<noteq> [] \<longrightarrow>
               renameContract d u cid title = ((403, ErrorBody ''Only owner can rename''), d)) \<and>
            deleteContract d u cid = ((403, ErrorBody ''Only owner can delete''), d) \<and>
            restoreVersion d u cid v = ((403, ErrorBody ''Only owner can restore versions''), d))
       \<and> (contract_ownerId c = user_id u \<longrightarrow>
            (title = None \<or> (\<exists>t. title = Some t \<and> trim t = []) \<longrightarrow>
               renameContract d u cid title = ((400, ErrorBody ''Title is required''), d)) \<and>
            (\<forall>t. title = Some t \<and> trim t \<noteq> [] \<longrightarrow>
               renameContract d u cid title =
                 ((200, ContractBody (c\<lparr>contract_title := trim t\<rparr>)),
                  updateContract cid (\<lambda>r. r\<lparr>contract_title := trim t\<rparr>) d) \<and>
               findContract (snd (renameContract d u cid title)) cid =
                 Some (c\<lparr>contract_title := trim t\<rparr>)) \<and>
            fst (deleteContract d u cid) = (200, MessageBody ''Deleted successfully'') \<and>
            findContract (snd (deleteContract d u cid)) cid = None \<and>
            map_of (s3 (snd (deleteContract d u cid))) (contract_s3Key c) = None \<and>
            (v = None \<longrightarrow>
               restoreVersion d u cid v = ((500, ErrorBody ''Failed to restore version''), d)) \<and>
            (\<forall>n. v = Some n \<and> findVersion d cid n = None \<longrightarrow>
               restoreVersion d u cid v = ((404, ErrorBody ''Version not found''), d)) \<and>
            (\<forall>n. v = Some n \<and> findVersion d cid n \<noteq> None \<and>
                 findVersion d cid (contract_version c) \<noteq> None \<longrightarrow>
               restoreVersion d u cid v = ((500, ErrorBody ''Failed to restore version''), d)) \<and>
            (\<forall>n h. v = Some n \<and> findVersion d cid n = Some h \<and>
                 findVersion d cid (contract_version c) = None \<longrightarrow>
               fst (restoreVersion d u cid v) =
                 (200, VersionBody (''Restored to version '' @ showInt n) (contract_version c + 1)) \<and>
               findContract (snd (restoreVersion d u cid v)) cid =
                 Some (c\<lparr>contract_s3Key := cv_s3Key h,
                         contract_version := contract_version c + 1\<rparr>) \<and>
               contractVersions (snd (restoreVersion d u cid v)) =
                 contractVersions d @
                   [\<lparr>cv_contractId = cid, cv_version = contract_version c,
                     cv_s3Key = contract_s3Key c,
                     cv_changeNote = ''Before restoring to v'' @ showInt n,
                     cv_createdById = user_id u\<rparr>]))"
proof -
  have cid: "contract_id c = cid"
    using find_Some_set[OF doc[unfolded findContract_def]] by simp
  have blank: "renameContract d u cid title = ((400, ErrorBody ''Title is required''), d)"
    if "title = None \<or> (\<exists>t. title = Some t \<and> trim t = [])"
    using that by (auto simp: renameContract_def)
  have nonblank: "t \<noteq> [] \<and> length (trim t) \<noteq> 0" if "trim t \<noteq> []" for t
    using that by auto
  have deny_rename: "renameContract d u cid title = ((403, ErrorBody ''Only owner can rename''), d)"
    if no: "contract_ownerId c \<noteq> user_id u" and t: "title = Some t \<and> trim t \<noteq> []" for t
    using no t doc nonblank[of t] by (simp add: renameContract_def)
  have deny_delete: "deleteContract d u cid = ((403, ErrorBody ''Only owner can delete''), d)"
    if no: "contract_ownerId c \<noteq> user_id u"
    using doc no by (simp add: deleteContract_def)
  have deny_restore: "restoreVersion d u cid v =
      ((403, ErrorBody ''Only owner can restore versions''), d)"
    if no: "contract_ownerId c \<noteq> user_id u"
    using findOwnedContract_nonowner[OF pk doc no] by (simp add: restoreVersion_def)
  have do_rename: "renameContract d u cid title =
        ((200, ContractBody (c\<lparr>contract_title := trim t\<rparr>)),
         updateContract cid (\<lambda>r. r\<lparr>contract_title := trim t\<rparr>) d) \<and>
      findContract (snd (renameContract d u cid title)) cid = Some (c\<lparr>contract_title := trim t\<rparr>)"
    if ow: "contract_ownerId c = user_id u" and t: "title = Some t \<and> trim t \<noteq> []" for t
    using ow t doc nonblank[of t] by (simp add: renameContract_def findContract_updateContract)
  have do_delete: "fst (deleteContract d u cid) = (200, MessageBody ''Deleted successfully'') \<and>
      findContract (snd (deleteContract d u cid)) cid = None \<and>
      map_of (s3 (snd (deleteContract d u cid))) (contract_s3Key c) = None"
    if ow: "contract_ownerId c = user_id u"
    using doc ow
    by (simp add: deleteContract_def findContract_def find_key_filter_out map_of_deleteFromS3)
  have owned: "findOwnedContract d cid (user_id u) = Some c"
    if ow: "contract_ownerId c = user_id u"
    by (rule findOwnedContract_owner[OF doc ow])
  have restore_nan: "restoreVersion d u cid v = ((500, ErrorBody ''Failed to restore version''), d)"
    if ow: "contract_ownerId c = user_id u" and "v = None"
    using owned[OF ow] that by (simp add: restoreVersion_def)
  have restore_missing: "restoreVersion d u cid v = ((404, ErrorBody ''Version not found''), d)"
    if ow: "contract_ownerId c = user_id u" and "v = Some n \<and> findVersion d cid n = None" for n
    using owned[OF ow] that by (simp add: restoreVersion_def)
  have restore_taken: "restoreVersion d u cid v = ((500, ErrorBody ''Failed to restore version''), d)"
    if ow: "contract_ownerId c = user_id u"
      and "v = Some n \<and> findVersion d cid n \<noteq> None \<and> findVersion d cid (contract_version c) \<noteq> None"
    for n
    using owned[OF ow] that cid by (auto simp: restoreVersion_def createContractVersion_def)
  have restore_done: "fst (restoreVersion d u cid v) =
        (200, VersionBody (''Restored to version '' @ showInt n) (contract_version c + 1)) \<and>
      findContract (snd (restoreVersion d u cid v)) cid =
        Some (c\<lparr>contract_s3Key := cv_s3Key h, contract_version := contract_version c + 1\<rparr>) \<and>
      contractVersions (snd (restoreVersion d u cid v)) =
        contractVersions d @
          [\<lparr>cv_contractId = cid, cv_version = contract_version c,
            cv_s3Key = contract_s3Key c,
            cv_changeNote = ''Before restoring to v'' @ showInt n,
            cv_createdById = user_id u\<rparr>]"
    if ow: "contract_ownerId c = user_id u"
      and a: "v = Some n \<and> findVersion d cid n = Some h \<and> findVersion d cid (contract_version c) = None"
    for n h
  proof -
    let ?s = "\<lparr>cv_contractId = cid, cv_version = contract_version c,
               cv_s3Key = contract_s3Key c,
               cv_changeNote = ''Before restoring to v'' @ showInt n,
               cv_createdById = user_id u\<rparr>"
    let ?d1 = "d\<lparr>contractVersions := contractVersions d @ [?s]\<rparr>"
    let ?g = "\<lambda>r. r\<lparr>contract_s3Key := cv_s3Key h, contract_version := contract_version c + 1\<rparr>"
    have res: "restoreVersion d u cid v =
        ((200, VersionBody (''Restored to version '' @ showInt n) (contract_version c + 1)),
         updateContract cid ?g ?d1)"
      using owned[OF ow] a cid by (simp add: restoreVersion_def createContractVersion_def)
    have doc1: "findContract ?d1 cid = Some c"
      using doc by (simp add: findContract_archived)
    have "findContract (updateContract cid ?g ?d1) cid = Some (?g c)"
      by (rule findContract_updateContract[OF doc1]) simp
    moreover have "contractVersions (updateContract cid ?g ?d1) = contractVersions d @ [?s]"
      by (simp add: updateContract_def)
    ultimately show ?thesis unfolding res by simp
  qed
  show ?thesis
    using blank deny_rename deny_delete deny_restore do_rename do_delete
      restore_nan restore_missing restore_taken restore_done
    by blast
qed

text \<open>
  In the office, Bob (ADMIN grant, not the owner) is refused all three and nothing
  changes. Alice (the owner) renames, and the title is trimmed; her title of a
  no-break space and an ideographic space is blank and answered 400; she deletes; and
  she restores the first version.
\<close>

theorem rename_delete_restore_owner_only_witness:
  "contractIdsUnique office \<and> findContract office ''c1'' = Some lease \<and>
   findPermissionByPair office ''c1'' (user_id bob) = Some bobGrant \<and> perm_role bobGrant = ADMIN \<and>
   contract_ownerId lease \<noteq> user_id bob \<and>
   trim (ascii ''Sublease'') \<noteq> [] \<and>
   renameContract office bob ''c1'' (Some (ascii ''Sublease'')) =
     ((403, ErrorBody ''Only owner can rename''), office) \<and>
   deleteContract office bob ''c1'' = ((403, ErrorBody ''Only owner can delete''), office) \<and>
   restoreVersion office bob ''c1'' (Some 1) =
     ((403, ErrorBody ''Only owner can restore versions''), office) \<and>
   contract_ownerId lease = user_id alice \<and>
   trim (ascii '' Sublease '') = ascii ''Sublease'' \<and>
   fst (renameContract office alice ''c1'' (Some (ascii '' Sublease ''))) =
     (200, ContractBody (lease\<lparr>contract_title := ascii ''Sublease''\<rparr>)) \<and>
   findContract (snd (renameContract office alice ''c1'' (Some (ascii '' Sublease '')))) ''c1'' =
     Some (lease\<lparr>contract_title := ascii ''Sublease''\<rparr>) \<and>
   trim [0x00A0, 0x3000] = [] \<and>
   renameContract office alice ''c1'' (Some [0x00A0, 0x3000]) =
     ((400, ErrorBody ''Title is required''), office) \<and>
   fst (deleteContract office alice ''c1'') = (200, MessageBody ''Deleted successfully'') \<and>
   findContract (snd (deleteContract office alice ''c1'')) ''c1'' = None \<and>
   map_of (s3 (snd (deleteContract office alice ''c1''))) ''contracts/c1/v2-1700.pdf'' = None \<and>
   findVersion office ''c1'' 1 = Some leaseV1 \<and>
   findVersion office ''c1'' (contract_version lease) = None \<and>
   fst (restoreVersion office alice ''c1'' (Some 1)) =
     (200, VersionBody ''Restored to version 1'' 3) \<and>
   findContract (snd (restoreVersion office alice ''c1'' (Some 1))) ''c1'' =
     Some (lease\<lparr>contract_s3Key := ''contracts/1600-lease.pdf'', contract_version := 3\<rparr>)"
proof -
  have pk: "contractIdsUnique office"
    by (simp add: contractIdsUnique_def office_defs)
  have doc: "findContract office ''c1'' = Some lease"
    by (simp add: findContract_def office_defs)
  have grant: "findPermissionByPair office ''c1'' (user_id bob) = Some bobGrant \<and> perm_role bobGrant = ADMIN"
    by (simp add: findPermissionByPair_def office_defs)
  have no: "contract_ownerId lease \<noteq> user_id bob"
    by (simp add: office_defs)
  have ow: "contract_ownerId lease = user_id alice"
    by (simp add: office_defs)
  have tr: "trim (ascii ''Sublease'') \<noteq> []" "trim (ascii '' Sublease '') = ascii ''Sublease''"
    "trim [0x00A0, 0x3000] = []"
    by code_simp+
  have vs: "findVersion office ''c1'' 1 = Some leaseV1"
    "findVersion office ''c1'' (contract_version lease) = None"
    by (simp_all add: findVersion_def office_defs)
  have vals: "contract_version lease = 2" "contract_s3Key lease = ''contracts/c1/v2-1700.pdf''"
    "cv_s3Key leaseV1 = ''contracts/1600-lease.pdf''" "showInt 1 = ''1''"
    by (simp_all add: office_defs) code_simp
  note b = rename_delete_restore_owner_only[OF pk doc, of bob "Some (ascii ''Sublease'')" "Some 1"]
  note a1 = rename_delete_restore_owner_only[OF pk doc, of alice "Some (ascii '' Sublease '')" "Some 1"]
  note a2 = rename_delete_restore_owner_only[OF pk doc, of alice "Some [0x00A0, 0x3000]" "Some 1"]
  have bobs: "renameContract office bob ''c1'' (Some (ascii ''Sublease'')) =
       ((403, ErrorBody ''Only owner can rename''), office) \<and>
     deleteContract office bob ''c1'' = ((403, ErrorBody ''Only owner can delete''), office) \<and>
     restoreVersion office bob ''c1'' (Some 1) =
       ((403, ErrorBody ''Only owner can restore versions''), office)"
    using b no tr(1) by blast
  have renamed: "fst (renameContract office alice ''c1'' (Some (ascii '' Sublease ''))) =
       (200, ContractBody (lease\<lparr>contract_title := ascii ''Sublease''\<rparr>)) \<and>
     findContract (snd (renameContract office alice ''c1'' (Some (ascii '' Sublease '')))) ''c1'' =
       Some (lease\<lparr>contract_title := ascii ''Sublease''\<rparr>)"
  proof -
    have "trim (ascii '' Sublease '') \<noteq> []" by code_simp
    then show ?thesis using a1 ow tr(2) by auto
  qed
  have blank: "renameContract office alice ''c1'' (Some [0x00A0, 0x3000]) =
       ((400, ErrorBody ''Title is required''), office)"
    using a2 ow tr(3) by blast
  have deleted: "fst (deleteContract office alice ''c1'') = (200, MessageBody ''Deleted successfully'') \<and>
     findContract (snd (deleteContract office alice ''c1'')) ''c1'' = None \<and>
     map_of (s3 (snd (deleteContract office alice ''c1''))) ''contracts/c1/v2-1700.pdf'' = None"
    using a1 ow vals(2) by auto
  have restored: "fst (restoreVersion office alice ''c1'' (Some 1)) =
       (200, VersionBody ''Restored to version 1'' 3) \<and>
     findContract (snd (restoreVersion office alice ''c1'' (Some 1))) ''c1'' =
       Some (lease\<lparr>contract_s3Key := ''contracts/1600-lease.pdf'', contract_version := 3\<rparr>)"
    using a1 ow vs vals by auto
  show ?thesis
    using pk doc grant no ow tr vs bobs renamed blank deleted restored by blast
qed

section \<open>The version routes keep the tables well-formed\<close>

lemma findEditableContract_is_doc:
  assumes "contractIdsUnique d" "findContract d cid = Some c"
    "findEditableContract d cid uid = Some c'"
  shows "c' = c"
  using assms unfolding contractIdsUnique_def findContract_def findEditableContract_def
  by (rule find_key_refine_eq)

lemma findContract_id: "findContract d cid = Some c \<Longrightarrow> contract_id c = cid \<and> c \<in> set (contracts d)"
  unfolding findContract_def by (auto dest: find_Some_set)

lemma snapshotsBounded_iff:
  "snapshotsBounded d \<longleftrightarrow>
     (\<forall>r \<in> set (contracts d). \<forall>s \<in> set (contractVersions d).
        cv_contractId s = contract_id r \<longrightarrow> cv_version s \<le> contract_version r)"
  by (simp add: snapshotsBounded_def list_all_iff)

lemma contract_by_id_unique:
  assumes "contractIdsUnique d" "c \<in> set (contracts d)" "r \<in> set (contracts d)"
    "contract_id r = contract_id c"
  shows "r = c"
proof -
  have "inj_on contract_id (set (contracts d))"
    using assms(1) by (simp add: contractIdsUnique_def distinct_map)
  then show ?thesis using assms(2-4) by (auto dest: inj_onD)
qed

text \<open>Archiving the current state of a document keeps the bound.\<close>

lemma snapshotsBounded_archive:
  assumes pk: "contractIdsUnique d" and inv: "snapshotsBounded d"
    and c: "c \<in> set (contracts d)"
    and s: "cv_contractId s = contract_id c" "cv_version s = contract_version c"
  shows "snapshotsBounded (d\<lparr>contractVersions := contractVersions d @ [s]\<rparr>)"
  unfolding snapshotsBounded_iff
proof (intro ballI impI)
  fix r t
  assume r: "r \<in> set (contracts (d\<lparr>contractVersions := contractVersions d @ [s]\<rparr>))"
    and t: "t \<in> set (contractVersions (d\<lparr>contractVersions := contractVersions d @ [s]\<rparr>))"
    and m: "cv_contractId t = contract_id r"
  show "cv_version t \<le> contract_version r"
  proof (cases "t = s")
    case True
    then have "r = c" using contract_by_id_unique[OF pk c] r m s by simp
    then show ?thesis using True s by simp
  next
    case False
    then show ?thesis using inv r t m by (auto simp: snapshotsBounded_iff)
  qed
qed

text \<open>Raising the version of a document keeps the bound.\<close>

lemma snapshotsBounded_advance:
  assumes inv: "snapshotsBounded d"
    and f: "\<And>z. contract_id (f z) = contract_id z" "\<And>z. z \<in> set (contracts d) \<Longrightarrow> contract_id z = cid \<Longrightarrow> contract_version z \<le> contract_version (f z)"
  shows "snapshotsBounded (updateContract cid f d)"
  unfolding snapshotsBounded_iff
proof (intro ballI impI)
  fix r t
  assume r: "r \<in> set (contracts (updateContract cid f d))"
    and t: "t \<in> set (contractVersions (updateContract cid f d))"
    and m: "cv_contractId t = contract_id r"
  from r obtain z where z: "z \<in> set (contracts d)" "r = (if contract_id z = cid then f z else z)"
    by (auto simp: updateContract_def)
  have t': "t \<in> set (contractVersions d)" using t by (simp add: updateContract_def)
  have "contract_id r = contract_id z" using z f(1) by simp
  then have "cv_version t \<le> contract_version z"
    using inv z(1) t' m by (auto simp: snapshotsBounded_iff)
  moreover have "contract_version z \<le> contract_version r" using z f(2)[OF z(1)] by auto
  ultimately show "cv_version t \<le> contract_version r" by simp
qed

lemma snapshotsBounded_s3 [simp]: "snapshotsBounded (d\<lparr>s3 := b\<rparr>) = snapshotsBounded d"
  by (simp add: snapshotsBounded_def)

lemma map_key_update:
  assumes "\<And>z. k (f z) = k z"
  shows "map k (map (\<lambda>c. if k c = i then f c else c) xs) = map k xs"
  by (induction xs) (simp_all add: assms)

lemma contractIdsUnique_updateContract:
  assumes "\<And>z. contract_id (f z) = contract_id z"
  shows "contractIdsUnique (updateContract cid f d) = contractIdsUnique d"
proof -
  have e: "contracts (updateContract cid f d) =
             map (\<lambda>c. if contract_id c = cid then f c else c) (contracts d)"
    by (simp add: updateContract_def)
  show ?thesis
    unfolding contractIdsUnique_def e map_key_update[of contract_id f, OF assms] ..
qed

lemma createContractVersion_Some:
  "createContractVersion s d = Some d1 \<longleftrightarrow>
     findVersion d (cv_contractId s) (cv_version s) = None \<and>
     d1 = d\<lparr>contractVersions := contractVersions d @ [s]\<rparr>"
  by (auto simp: createContractVersion_def split: option.splits)

text \<open>The upload route, whatever it answers, keeps both invariants.\<close>

lemma uploadVersion_invariants:
  assumes pk: "contractIdsUnique d" and inv: "snapshotsBounded d"
  shows "contractIdsUnique (snd (uploadVersion d u cid note file now s3ok)) \<and>
         snapshotsBounded (snd (uploadVersion d u cid note file now s3ok))"
proof (cases "file")
  case None
  then show ?thesis using pk inv by (simp add: uploadVersion_def)
next
  case (Some f)
  show ?thesis
  proof (cases "findEditableContract d cid (user_id u)")
    case None
    then show ?thesis using Some pk inv by (simp add: uploadVersion_def)
  next
    case c: (Some c)
    then have cin: "c \<in> set (contracts d)" "contract_id c = cid"
      by (auto simp: findEditableContract_def dest: find_Some_set)
    let ?s = "\<lparr>cv_contractId = contract_id c, cv_version = contract_version c,
               cv_s3Key = contract_s3Key c,
               cv_changeNote = archiveNote note (contract_version c),
               cv_createdById = user_id u\<rparr>"
    show ?thesis
    proof (cases "createContractVersion ?s d")
      case None
      then show ?thesis using Some c pk inv by (simp add: uploadVersion_def)
    next
      case d1: (Some d1)
      then have d1_eq: "d1 = d\<lparr>contractVersions := contractVersions d @ [?s]\<rparr>"
        by (simp add: createContractVersion_Some)
      have pk1: "contractIdsUnique d1" using pk by (simp add: d1_eq contractIdsUnique_def)
      have inv1: "snapshotsBounded d1"
        unfolding d1_eq using snapshotsBounded_archive[OF pk inv cin(1), of ?s] by simp
      show ?thesis
      proof (cases s3ok)
        case False
        then show ?thesis using Some c d1 pk1 inv1 by (simp add: uploadVersion_def)
      next
        case True
        let ?g = "\<lambda>r. r\<lparr>contract_s3Key := newVersionKey cid (contract_version c) now,
                          contract_version := contract_version c + 1,
                          contract_fileSize := file_size f\<rparr>"
        let ?d2 = "d1\<lparr>s3 := uploadToS3 (newVersionKey cid (contract_version c) now) (file_buffer f) (s3 d1)\<rparr>"
        have res: "snd (uploadVersion d u cid note file now s3ok) = updateContract cid ?g ?d2"
          using Some c d1 True by (simp add: uploadVersion_def Let_def)
        have pk2: "contractIdsUnique ?d2" using pk1 by (simp add: contractIdsUnique_def)
        have pres: "\<And>z. contract_id (?g z) = contract_id z" by simp
        have le: "\<And>z. z \<in> set (contracts ?d2) \<Longrightarrow> contract_id z = cid \<Longrightarrow>
                    contract_version z \<le> contract_version (?g z)"
        proof -
          fix z assume z: "z \<in> set (contracts ?d2)" "contract_id z = cid"
          then have "z = c" using contract_by_id_unique[OF pk cin(1), of z] cin(2) by (simp add: d1_eq)
          then show "contract_version z \<le> contract_version (?g z)" by simp
        qed
        have inv2: "snapshotsBounded ?d2" using inv1 by simp
        have "contractIdsUnique (updateContract cid ?g ?d2) = contractIdsUnique ?d2"
          by (rule contractIdsUnique_updateContract) simp
        then have "contractIdsUnique (updateContract cid ?g ?d2)" using pk2 by blast
        moreover have "snapshotsBounded (updateContract cid ?g ?d2)"
          by (rule snapshotsBounded_advance[OF inv2 pres le])
        ultimately show ?thesis unfolding res by blast
      qed
    qed
  qed
qed


lemma restoreVersion_invariants:
  assumes pk: "contractIdsUnique d" and inv: "snapshotsBounded d"
  shows "contractIdsUnique (snd (restoreVersion d u cid vn)) \<and>
         snapshotsBounded (snd (restoreVersion d u cid vn))"
proof (cases "findOwnedContract d cid (user_id u)")
  case None
  then show ?thesis using pk inv by (simp add: restoreVersion_def)
next
  case c: (Some c)
  then have cin: "c \<in> set (contracts d)" "contract_id c = cid"
    by (auto simp: findOwnedContract_def dest: find_Some_set)
  show ?thesis
  proof (cases vn)
    case None
    then show ?thesis using c pk inv by (simp add: restoreVersion_def)
  next
    case v: (Some v)
    show ?thesis
    proof (cases "findVersion d cid v")
      case None
      then show ?thesis using c v pk inv by (simp add: restoreVersion_def)
    next
      case h: (Some h)
      let ?s = "\<lparr>cv_contractId = contract_id c, cv_version = contract_version c,
                 cv_s3Key = contract_s3Key c,
                 cv_changeNote = ''Before restoring to v'' @ showInt v,
                 cv_createdById = user_id u\<rparr>"
      show ?thesis
      proof (cases "createContractVersion ?s d")
        case None
        then show ?thesis using c v h pk inv by (simp add: restoreVersion_def)
      next
        case d1: (Some d1)
        then have d1_eq: "d1 = d\<lparr>contractVersions := contractVersions d @ [?s]\<rparr>"
          by (simp add: createContractVersion_Some)
        have pk1: "contractIdsUnique d1" using pk by (simp add: d1_eq contractIdsUnique_def)
        have inv1: "snapshotsBounded d1"
          unfolding d1_eq using snapshotsBounded_archive[OF pk inv cin(1), of ?s] by simp
        let ?g = "\<lambda>r. r\<lparr>contract_s3Key := cv_s3Key h,
                          contract_version := contract_version c + 1\<rparr>"
        have res: "snd (restoreVersion d u cid vn) = updateContract cid ?g d1"
          using c v h d1 by (simp add: restoreVersion_def)
        have pres: "\<And>z. contract_id (?g z) = contract_id z" by simp
        have le: "\<And>z. z \<in> set (contracts d1) \<Longrightarrow> contract_id z = cid \<Longrightarrow>
                    contract_version z \<le> contract_version (?g z)"
        proof -
          fix z assume z: "z \<in> set (contracts d1)" "contract_id z = cid"
          then have "z = c" using contract_by_id_unique[OF pk cin(1), of z] cin(2) by (simp add: d1_eq)
          then show "contract_version z \<le> contract_version (?g z)" by simp
        qed
        have "contractIdsUnique (updateContract cid ?g d1) = contractIdsUnique d1"
          by (rule contractIdsUnique_updateContract) simp
        then have "contractIdsUnique (updateContract cid ?g d1)" using pk1 by blast
        moreover have "snapshotsBounded (updateContract cid ?g d1)"
          by (rule snapshotsBounded_advance[OF inv1 pres le])
        ultimately show ?thesis unfolding res by blast
      qed
    qed
  qed
qed

lemma findVersion_append:
  "findVersion (d\<lparr>contractVersions := contractVersions d @ [s]\<rparr>) cid v =
     (case findVersion d cid v of
        Some h \<Rightarrow> Some h
      | None \<Rightarrow> if cv_contractId s = cid \<and> cv_version s = v then Some s else None)"
proof -
  have "\<And>P xs. find P (xs @ [s]) = (case find P xs of Some h \<Rightarrow> Some h
                                         | None \<Rightarrow> if P s then Some s else None)"
  proof -
    fix P :: "contractVersion \<Rightarrow> bool" and xs
    show "find P (xs @ [s]) = (case find P xs of Some h \<Rightarrow> Some h
                                | None \<Rightarrow> if P s then Some s else None)"
      by (induction xs) simp_all
  qed
  then show ?thesis by (simp add: findVersion_def)
qed

text \<open>
  The upload route archives before it stores the new file. When the object store then
  refuses the file, the snapshot of the current version stays behind while the document
  stays at that version; from then on every upload and every restore of the document
  fails at its own archiving step.
\<close>

lemma refused_upload_blocks_later_versions:
  assumes pk: "contractIdsUnique d"
    and doc: "findContract d cid = Some c"
    and may: "contract_ownerId c = user_id u \<or> hasEditorGrant d cid (user_id u)"
    and free: "findVersion d cid (contract_version c) = None"
  shows "fst (fst (uploadVersion d u cid note (Some f) now False)) = 500 \<and>
         findContract (snd (uploadVersion d u cid note (Some f) now False)) cid = Some c \<and>
         fst (fst (uploadVersion (snd (uploadVersion d u cid note (Some f) now False))
                     u' cid note' file' now' s3ok')) \<in> {400, 403, 500} \<and>
         fst (fst (restoreVersion (snd (uploadVersion d u cid note (Some f) now False))
                     u' cid vn)) \<in> {403, 404, 500}"
proof -
  have cid: "contract_id c = cid" using findContract_id[OF doc] by simp
  let ?s = "\<lparr>cv_contractId = cid, cv_version = contract_version c,
               cv_s3Key = contract_s3Key c,
               cv_changeNote = archiveNote note (contract_version c),
               cv_createdById = user_id u\<rparr>"
  let ?d1 = "d\<lparr>contractVersions := contractVersions d @ [?s]\<rparr>"
  have ed: "findEditableContract d cid (user_id u) = Some c"
    unfolding findEditableContract_def
    using doc may cid by (intro find_key_refine_Some) (auto simp: findContract_def)
  have res: "uploadVersion d u cid note (Some f) now False =
               ((500, ErrorBody ''Failed to upload new version''), ?d1)"
    using ed cid free by (simp add: uploadVersion_def createContractVersion_def Let_def)
  have pk1: "contractIdsUnique ?d1" using pk by (simp add: contractIdsUnique_def)
  have doc1: "findContract ?d1 cid = Some c" using doc by (simp add: findContract_def)
  have taken: "findVersion ?d1 cid (contract_version c) = Some ?s"
    using free by (simp add: findVersion_append)
  have up: "fst (fst (uploadVersion ?d1 u' cid note' file' now' s3ok')) \<in> {400, 403, 500}"
  proof (cases "file'")
    case None
    then show ?thesis by (simp add: uploadVersion_def)
  next
    case (Some g)
    show ?thesis
    proof (cases "findEditableContract ?d1 cid (user_id u')")
      case None
      then show ?thesis using Some by (simp add: uploadVersion_def)
    next
      case c': (Some c')
      have "c' = c" by (rule findEditableContract_is_doc[OF pk1 doc1 c'])
      then show ?thesis
        using Some c' cid taken by (simp add: uploadVersion_def createContractVersion_def)
    qed
  qed
  have re: "fst (fst (restoreVersion ?d1 u' cid vn)) \<in> {403, 404, 500}"
  proof (cases "findOwnedContract ?d1 cid (user_id u')")
    case None
    then show ?thesis by (simp add: restoreVersion_def)
  next
    case c': (Some c')
    have "c' = c"
      using pk1 doc1 c' unfolding contractIdsUnique_def findContract_def findOwnedContract_def
      by (rule find_key_refine_eq)
    then show ?thesis
      using c' cid taken
      by (simp add: restoreVersion_def createContractVersion_def split: option.splits)
  qed
  show ?thesis unfolding res using doc1 up re by simp
qed

section \<open>Uploading a new version\<close>

text \<open>
  Claim C7. Let \<open>c\<close> be the document with id \<open>cid\<close>, at version \<open>N\<close> with blob
  reference \<open>B\<close>. Every upload that is answered 200 has appended exactly one snapshot
  to the history, and that snapshot records \<open>(N, B)\<close>, the state being replaced; the
  snapshots already there are untouched; the document is now at version \<open>N + 1\<close> and
  points at the key under which the uploaded file was stored. Such uploads exist: the
  owner, or a holder of an EDITOR or ADMIN grant, who sends a file that the store
  accepts, while no snapshot of version \<open>N\<close> exists yet, is answered 200.
\<close>

theorem uploadVersion_archives_replaced_state:
  assumes pk: "contractIdsUnique d"
    and doc: "findContract d cid = Some c"
  shows "(fst (fst (uploadVersion d u cid note file now s3ok)) = 200 \<longrightarrow>
           (\<exists>f. file = Some f \<and>
              contractVersions (snd (uploadVersion d u cid note file now s3ok)) =
                contractVersions d @
                  [\<lparr>cv_contractId = cid, cv_version = contract_version c,
                    cv_s3Key = contract_s3Key c,
                    cv_changeNote = archiveNote note (contract_version c),
                    cv_createdById = user_id u\<rparr>] \<and>
              findContract (snd (uploadVersion d u cid note file now s3ok)) cid =
                Some (c\<lparr>contract_s3Key := newVersionKey cid (contract_version c) now,
                        contract_version := contract_version c + 1,
                        contract_fileSize := file_size f\<rparr>) \<and>
              map_of (s3 (snd (uploadVersion d u cid note file now s3ok)))
                (newVersionKey cid (contract_version c) now) = Some (file_buffer f) \<and>
              fst (uploadVersion d u cid note file now s3ok) =
                (200, VersionBody ''New version uploaded'' (contract_version c + 1))))
       \<and> ((contract_ownerId c = user_id u \<or> hasEditorGrant d cid (user_id u)) \<and>
            file \<noteq> None \<and> s3ok \<and> findVersion d cid (contract_version c) = None \<longrightarrow>
            fst (fst (uploadVersion d u cid note file now s3ok)) = 200)"
proof (intro conjI impI)
  assume ok: "fst (fst (uploadVersion d u cid note file now s3ok)) = 200"
  from ok obtain f where f: "file = Some f"
    by (cases "file") (auto simp: uploadVersion_def)
  from ok f obtain c' where c': "findEditableContract d cid (user_id u) = Some c'"
    by (cases "findEditableContract d cid (user_id u)") (auto simp: uploadVersion_def)
  have cc: "c' = c" using findEditableContract_is_doc[OF pk doc c'] .
  have cid: "contract_id c = cid" using findContract_id[OF doc] by simp
  let ?s = "\<lparr>cv_contractId = cid, cv_version = contract_version c,
               cv_s3Key = contract_s3Key c,
               cv_changeNote = archiveNote note (contract_version c),
               cv_createdById = user_id u\<rparr>"
  from ok f c' cc cid obtain d1 where d1: "createContractVersion ?s d = Some d1"
    by (cases "createContractVersion ?s d") (auto simp: uploadVersion_def)
  then have d1_eq: "d1 = d\<lparr>contractVersions := contractVersions d @ [?s]\<rparr>"
    by (simp add: createContractVersion_Some)
  from ok f c' cc cid d1 have s3: "s3ok"
    by (cases s3ok) (auto simp: uploadVersion_def Let_def)
  let ?k = "newVersionKey cid (contract_version c) now"
  let ?g = "\<lambda>r. r\<lparr>contract_s3Key := ?k, contract_version := contract_version c + 1,
                    contract_fileSize := file_size f\<rparr>"
  let ?d2 = "d1\<lparr>s3 := uploadToS3 ?k (file_buffer f) (s3 d1)\<rparr>"
  have res: "uploadVersion d u cid note file now s3ok =
      ((200, VersionBody ''New version uploaded'' (contract_version c + 1)), updateContract cid ?g ?d2)"
    using f c' cc cid d1 s3 by (simp add: uploadVersion_def Let_def)
  have doc2: "findContract ?d2 cid = Some c"
    using doc by (simp add: findContract_def d1_eq)
  have "findContract (updateContract cid ?g ?d2) cid = Some (?g c)"
    by (rule findContract_updateContract[OF doc2]) simp
  moreover have "contractVersions (updateContract cid ?g ?d2) = contractVersions d @ [?s]"
    by (simp add: updateContract_def d1_eq)
  moreover have "map_of (s3 (updateContract cid ?g ?d2)) ?k = Some (file_buffer f)"
    by (simp add: updateContract_def uploadToS3_def)
  ultimately show "\<exists>f. file = Some f \<and>
              contractVersions (snd (uploadVersion d u cid note file now s3ok)) =
                contractVersions d @
                  [\<lparr>cv_contractId = cid, cv_version = contract_version c,
                    cv_s3Key = contract_s3Key c,
                    cv_changeNote = archiveNote note (contract_version c),
                    cv_createdById = user_id u\<rparr>] \<and>
              findContract (snd (uploadVersion d u cid note file now s3ok)) cid =
                Some (c\<lparr>contract_s3Key := newVersionKey cid (contract_version c) now,
                        contract_version := contract_version c + 1,
                        contract_fileSize := file_size f\<rparr>) \<and>
              map_of (s3 (snd (uploadVersion d u cid note file now s3ok)))
                (newVersionKey cid (contract_version c) now) = Some (file_buffer f) \<and>
              fst (uploadVersion d u cid note file now s3ok) =
                (200, VersionBody ''New version uploaded'' (contract_version c + 1))"
    using f res by simp
next
  assume a: "(contract_ownerId c = user_id u \<or> hasEditorGrant d cid (user_id u)) \<and>
            file \<noteq> None \<and> s3ok \<and> findVersion d cid (contract_version c) = None"
  have cid: "contract_id c = cid" using findContract_id[OF doc] by simp
  have "findEditableContract d cid (user_id u) = Some c"
    unfolding findEditableContract_def
    using doc a cid by (intro find_key_refine_Some) (auto simp: findContract_def)
  then show "fst (fst (uploadVersion d u cid note file now s3ok)) = 200"
    using a cid by (auto simp: uploadVersion_def createContractVersion_def Let_def)
qed


section \<open>Restoring a version\<close>

text \<open>
  Claim C8. Let \<open>c\<close> be the document with id \<open>cid\<close>, at version \<open>N\<close> with blob
  reference \<open>B\<close>, in a database where no snapshot is numbered above its document.
  Every restore that is answered 200 targeted an existing snapshot \<open>V\<close>; it has first
  archived \<open>(N, B)\<close> with the note \<open>Before restoring to vV\<close>, then pointed the
  document at the blob of \<open>V\<close> and moved it to version \<open>N + 1\<close>. The new number is
  above every number the document's snapshots use, so it was never used before, and
  the bound on the snapshots holds again afterwards. Such restores exist: the owner
  naming an existing snapshot, while no snapshot of version \<open>N\<close> exists yet, is
  answered 200.
\<close>

theorem restoreVersion_is_a_new_version:
  assumes pk: "contractIdsUnique d"
    and doc: "findContract d cid = Some c"
    and inv: "snapshotsBounded d"
  shows "(fst (fst (restoreVersion d u cid vn)) = 200 \<longrightarrow>
           (\<exists>v h. vn = Some v \<and> findVersion d cid v = Some h \<and>
              contractVersions (snd (restoreVersion d u cid vn)) =
                contractVersions d @
                  [\<lparr>cv_contractId = cid, cv_version = contract_version c,
                    cv_s3Key = contract_s3Key c,
                    cv_changeNote = ''Before restoring to v'' @ showInt v,
                    cv_createdById = user_id u\<rparr>] \<and>
              findContract (snd (restoreVersion d u cid vn)) cid =
                Some (c\<lparr>contract_s3Key := cv_s3Key h,
                        contract_version := contract_version c + 1\<rparr>) \<and>
              fst (restoreVersion d u cid vn) =
                (200, VersionBody (''Restored to version '' @ showInt v) (contract_version c + 1))) \<and>
           (\<forall>w \<in> set (snapshotVersions (snd (restoreVersion d u cid vn)) cid).
              w < contract_version c + 1) \<and>
           contractIdsUnique (snd (restoreVersion d u cid vn)) \<and>
           snapshotsBounded (snd (restoreVersion d u cid vn)))
       \<and> (contract_ownerId c = user_id u \<and> vn = Some v \<and> findVersion d cid v \<noteq> None \<and>
            findVersion d cid (contract_version c) = None \<longrightarrow>
            fst (fst (restoreVersion d u cid vn)) = 200)"
proof (intro conjI impI)
  assume ok: "fst (fst (restoreVersion d u cid vn)) = 200"
  have cid: "contract_id c = cid" and cin: "c \<in> set (contracts d)"
    using findContract_id[OF doc] by simp_all
  from ok obtain c' where c': "findOwnedContract d cid (user_id u) = Some c'"
    by (cases "findOwnedContract d cid (user_id u)") (auto simp: restoreVersion_def)
  have cc: "c' = c"
    using pk doc c' unfolding contractIdsUnique_def findContract_def findOwnedContract_def
    by (rule find_key_refine_eq)
  from ok c' obtain w where w: "vn = Some w"
    by (cases vn) (auto simp: restoreVersion_def)
  from ok c' w obtain h where h: "findVersion d cid w = Some h"
    by (cases "findVersion d cid w") (auto simp: restoreVersion_def)
  let ?s = "\<lparr>cv_contractId = cid, cv_version = contract_version c,
               cv_s3Key = contract_s3Key c,
               cv_changeNote = ''Before restoring to v'' @ showInt w,
               cv_createdById = user_id u\<rparr>"
  from ok c' cc cid w h obtain d1 where d1: "createContractVersion ?s d = Some d1"
    by (cases "createContractVersion ?s d") (auto simp: restoreVersion_def)
  then have d1_eq: "d1 = d\<lparr>contractVersions := contractVersions d @ [?s]\<rparr>"
    by (simp add: createContractVersion_Some)
  let ?g = "\<lambda>r. r\<lparr>contract_s3Key := cv_s3Key h, contract_version := contract_version c + 1\<rparr>"
  have res: "restoreVersion d u cid vn =
      ((200, VersionBody (''Restored to version '' @ showInt w) (contract_version c + 1)),
       updateContract cid ?g d1)"
    using c' cc cid w h d1 by (simp add: restoreVersion_def)
  have doc1: "findContract d1 cid = Some c"
    using doc by (simp add: findContract_def d1_eq)
  have found: "findContract (updateContract cid ?g d1) cid = Some (?g c)"
    by (rule findContract_updateContract[OF doc1]) simp
  have vers: "contractVersions (updateContract cid ?g d1) = contractVersions d @ [?s]"
    by (simp add: updateContract_def d1_eq)
  show "\<exists>v h. vn = Some v \<and> findVersion d cid v = Some h \<and>
              contractVersions (snd (restoreVersion d u cid vn)) =
                contractVersions d @
                  [\<lparr>cv_contractId = cid, cv_version = contract_version c,
                    cv_s3Key = contract_s3Key c,
                    cv_changeNote = ''Before restoring to v'' @ showInt v,
                    cv_createdById = user_id u\<rparr>] \<and>
              findContract (snd (restoreVersion d u cid vn)) cid =
                Some (c\<lparr>contract_s3Key := cv_s3Key h,
                        contract_version := contract_version c + 1\<rparr>) \<and>
              fst (restoreVersion d u cid vn) =
                (200, VersionBody (''Restored to version '' @ showInt v) (contract_version c + 1))"
    using w h found vers unfolding res by simp
  show "\<forall>x \<in> set (snapshotVersions (snd (restoreVersion d u cid vn)) cid).
          x < contract_version c + 1"
  proof
    fix x assume "x \<in> set (snapshotVersions (snd (restoreVersion d u cid vn)) cid)"
    then have "x \<in> cv_version ` {t \<in> set (contractVersions d @ [?s]). cv_contractId t = cid}"
      unfolding res snapshotVersions_def by (simp only: snd_conv vers set_map set_filter)
    then obtain t where t: "t \<in> set (contractVersions d @ [?s])" "cv_contractId t = cid" "x = cv_version t"
      by blast
    show "x < contract_version c + 1"
    proof (cases "t = ?s")
      case True
      then show ?thesis using t by simp
    next
      case False
      then have "t \<in> set (contractVersions d)" using t(1) by simp
      then have "cv_version t \<le> contract_version c"
        using inv cin cid t(2) by (auto simp: snapshotsBounded_iff)
      then show ?thesis using t(3) by simp
    qed
  qed
  show "contractIdsUnique (snd (restoreVersion d u cid vn))"
    using restoreVersion_invariants[OF pk inv] by blast
  show "snapshotsBounded (snd (restoreVersion d u cid vn))"
    using restoreVersion_invariants[OF pk inv] by blast
next
  assume a: "contract_ownerId c = user_id u \<and> vn = Some v \<and> findVersion d cid v \<noteq> None \<and>
            findVersion d cid (contract_version c) = None"
  have cid: "contract_id c = cid" using findContract_id[OF doc] by simp
  have "findOwnedContract d cid (user_id u) = Some c"
    using findOwnedContract_owner[OF doc] a by simp
  then show "fst (fst (restoreVersion d u cid vn)) = 200"
    using a cid by (auto simp: restoreVersion_def createContractVersion_def)
qed


text \<open>In the office: Bob uploads a third version, and Alice restores the first.\<close>

lemma office_unique: "contractIdsUnique office"
  by (simp add: contractIdsUnique_def office_defs)

lemma office_lease: "findContract office ''c1'' = Some lease"
  by (simp add: findContract_def office_defs)

lemma office_bounded: "snapshotsBounded office"
  by (simp add: snapshotsBounded_def office_defs)

lemma office_strings:
  "newVersionKey ''c1'' 2 1800 = ''contracts/c1/v3-1800.pdf''"
  "archiveNote None 2 = ''Version 2''"
  "showInt 1 = ''1''"
  by code_simp+

theorem uploadVersion_archives_replaced_state_witness:
  "contractIdsUnique office \<and> findContract office ''c1'' = Some lease \<and>
   hasEditorGrant office ''c1'' (user_id bob) \<and>
   findVersion office ''c1'' (contract_version lease) = None \<and>
   fst (uploadVersion office bob ''c1'' None (Some newPdf) 1800 True) =
     (200, VersionBody ''New version uploaded'' 3) \<and>
   contractVersions (snd (uploadVersion office bob ''c1'' None (Some newPdf) 1800 True)) =
     [leaseV1,
      \<lparr>cv_contractId = ''c1'', cv_version = 2, cv_s3Key = ''contracts/c1/v2-1700.pdf'',
       cv_changeNote = ''Version 2'', cv_createdById = ''u2''\<rparr>] \<and>
   findContract (snd (uploadVersion office bob ''c1'' None (Some newPdf) 1800 True)) ''c1'' =
     Some (lease\<lparr>contract_s3Key := ''contracts/c1/v3-1800.pdf'', contract_version := 3,
                 contract_fileSize := 5\<rparr>) \<and>
   map_of (s3 (snd (uploadVersion office bob ''c1'' None (Some newPdf) 1800 True)))
     ''contracts/c1/v3-1800.pdf'' = Some ''PDF-C''"
proof -
  have pre: "hasEditorGrant office ''c1'' (user_id bob) \<and>
             findVersion office ''c1'' (contract_version lease) = None"
    by (simp add: hasEditorGrant_def findVersion_def office_defs)
  note th = uploadVersion_archives_replaced_state[OF office_unique office_lease,
              of bob None "Some newPdf" 1800 True]
  from th pre have ok: "fst (fst (uploadVersion office bob ''c1'' None (Some newPdf) 1800 True)) = 200"
    by simp
  have vals: "contract_version lease = 2" "contract_s3Key lease = ''contracts/c1/v2-1700.pdf''"
    "user_id bob = ''u2''" "contractVersions office = [leaseV1]" "file_buffer newPdf = ''PDF-C''"
    "file_size newPdf = 5"
    by (simp_all add: office_defs)
  from th ok show ?thesis
    using pre office_unique office_lease by (auto simp: vals office_strings)
qed

theorem restoreVersion_is_a_new_version_witness:
  "contractIdsUnique office \<and> findContract office ''c1'' = Some lease \<and> snapshotsBounded office \<and>
   contract_ownerId lease = user_id alice \<and> findVersion office ''c1'' 1 = Some leaseV1 \<and>
   fst (restoreVersion office alice ''c1'' (Some 1)) = (200, VersionBody ''Restored to version 1'' 3) \<and>
   contractVersions (snd (restoreVersion office alice ''c1'' (Some 1))) =
     [leaseV1,
      \<lparr>cv_contractId = ''c1'', cv_version = 2, cv_s3Key = ''contracts/c1/v2-1700.pdf'',
       cv_changeNote = ''Before restoring to v1'', cv_createdById = ''u1''\<rparr>] \<and>
   findContract (snd (restoreVersion office alice ''c1'' (Some 1))) ''c1'' =
     Some (lease\<lparr>contract_s3Key := ''contracts/1600-lease.pdf'', contract_version := 3\<rparr>) \<and>
   list_all (\<lambda>w. w < 3) (snapshotVersions (snd (restoreVersion office alice ''c1'' (Some 1))) ''c1'') \<and>
   snapshotsBounded (snd (restoreVersion office alice ''c1'' (Some 1)))"
proof -
  have pre: "contract_ownerId lease = user_id alice \<and> findVersion office ''c1'' 1 = Some leaseV1 \<and>
             findVersion office ''c1'' (contract_version lease) = None"
    by (simp add: findVersion_def office_defs)
  note th = restoreVersion_is_a_new_version[OF office_unique office_lease office_bounded,
              of alice "Some 1" 1]
  from th pre have ok: "fst (fst (restoreVersion office alice ''c1'' (Some 1))) = 200"
    by simp
  have vals: "contract_version lease = 2" "contract_s3Key lease = ''contracts/c1/v2-1700.pdf''"
    "user_id alice = ''u1''" "contractVersions office = [leaseV1]"
    "cv_s3Key leaseV1 = ''contracts/1600-lease.pdf''"
    by (simp_all add: office_defs)
  from th ok show ?thesis
    using pre office_unique office_lease office_bounded
    by (auto simp: vals office_strings list_all_iff)
qed

section \<open>Grants\<close>

lemma map_key_preserved:
  assumes "\<And>z. k (g z) = k z"
  shows "map k (map g xs) = map k xs"
  by (induction xs) (simp_all add: assms)

lemma find_map_preserved:
  assumes "find P xs = Some e" "\<And>z. P (g z) = P z"
  shows "find P (map g xs) = Some (g e)"
  using assms by (induction xs) (auto split: if_splits)

lemma find_append_new:
  assumes "find P xs = None" "P p"
  shows "find P (xs @ [p]) = Some p"
  using assms by (induction xs) (auto split: if_splits)

lemma grantPair_role [simp]: "grantPair (p\<lparr>perm_role := r\<rparr>) = grantPair p"
  by (simp add: grantPair_def)

lemma grants_updatePermissionRole:
  "map grantPair (permissions (updatePermissionRole pid r d)) = map grantPair (permissions d)"
proof -
  have e: "permissions (updatePermissionRole pid r d) =
             map (\<lambda>p. if perm_id p = pid then p\<lparr>perm_role := r\<rparr> else p) (permissions d)"
    by (simp add: updatePermissionRole_def)
  show ?thesis unfolding e by (rule map_key_preserved) simp
qed

lemma uniqueGrants_updatePermissionRole:
  "uniqueGrants (updatePermissionRole pid r d) = uniqueGrants d"
  unfolding uniqueGrants_def grants_updatePermissionRole ..

lemma findPermissionByPair_updateRole:
  assumes "findPermissionByPair d cid uid = Some e"
  shows "findPermissionByPair (updatePermissionRole (perm_id e) r d) cid uid = Some (e\<lparr>perm_role := r\<rparr>)"
proof -
  let ?g = "\<lambda>p. if perm_id p = perm_id e then p\<lparr>perm_role := r\<rparr> else p"
  have "find (\<lambda>p. perm_contractId p = cid \<and> perm_userId p = uid) (map ?g (permissions d)) = Some (?g e)"
    by (rule find_map_preserved) (use assms in \<open>auto simp: findPermissionByPair_def\<close>)
  then show ?thesis by (simp add: findPermissionByPair_def updatePermissionRole_def)
qed

lemma findPermission_updateRole:
  assumes "findPermission d pid = Some p"
  shows "findPermission (updatePermissionRole pid r d) pid = Some (p\<lparr>perm_role := r\<rparr>)"
  using assms unfolding findPermission_def updatePermissionRole_def
  by (simp add: find_key_map_update)

lemma findPermissionByPair_None:
  "findPermissionByPair d cid uid = None \<longleftrightarrow> (cid, uid) \<notin> set (map grantPair (permissions d))"
  by (auto simp: findPermissionByPair_def find_None_iff grantPair_def image_iff)

lemma inviteUser_existing:
  assumes "findOwnedContract d cid (user_id u) = Some c" "findUserByEmail d email = Some w"
    "user_id w \<noteq> user_id u" "findPermissionByPair d cid (user_id w) = Some e"
  shows "inviteUser d u cid (Some (email, role)) newId =
           ((200, PermissionBody (e\<lparr>perm_role := role\<rparr>) (userSummary d (perm_userId e))),
            updatePermissionRole (perm_id e) role d)"
  using assms by (simp add: inviteUser_def)

lemma inviteUser_new:
  assumes "findOwnedContract d cid (user_id u) = Some c" "findUserByEmail d email = Some w"
    "user_id w \<noteq> user_id u" "findPermissionByPair d cid (user_id w) = None"
    "\<not> list_ex (\<lambda>p. perm_id p = newId) (permissions d)"
  shows "inviteUser d u cid (Some (email, role)) newId =
           ((201, PermissionBody \<lparr>perm_id = newId, perm_contractId = cid, perm_userId = user_id w,
                                   perm_role = role\<rparr> (userSummary d (user_id w))),
            d\<lparr>permissions := permissions d @
                 [\<lparr>perm_id = newId, perm_contractId = cid, perm_userId = user_id w,
                   perm_role = role\<rparr>]\<rparr>)"
  using assms by (simp add: inviteUser_def Let_def)

lemma uniqueGrants_inviteUser:
  assumes uq: "uniqueGrants d"
  shows "uniqueGrants (snd (inviteUser d u cid parsed newId))"
proof (cases parsed)
  case None
  then show ?thesis using uq by (simp add: inviteUser_def)
next
  case (Some er)
  obtain email role where er: "er = (email, role)" by (cases er)
  show ?thesis
  proof (cases "findOwnedContract d cid (user_id u)")
    case None
    then show ?thesis using Some er uq by (simp add: inviteUser_def)
  next
    case c: (Some c)
    show ?thesis
    proof (cases "findUserByEmail d email")
      case None
      then show ?thesis using Some er c uq by (simp add: inviteUser_def)
    next
      case w: (Some w)
      show ?thesis
      proof (cases "user_id w = user_id u")
        case True
        then show ?thesis using Some er c w uq by (simp add: inviteUser_def)
      next
        case False
        show ?thesis
        proof (cases "findPermissionByPair d cid (user_id w)")
          case (Some e)
          show ?thesis
            unfolding \<open>parsed = Some er\<close> er inviteUser_existing[OF c w False Some]
            using uq by (simp add: uniqueGrants_updatePermissionRole)
        next
          case None
          show ?thesis
          proof (cases "list_ex (\<lambda>p. perm_id p = newId) (permissions d)")
            case True
            then show ?thesis using \<open>parsed = Some er\<close> er c w False None uq by (simp add: inviteUser_def)
          next
            case fresh: False
            have "(cid, user_id w) \<notin> set (map grantPair (permissions d))"
              using None by (simp add: findPermissionByPair_None)
            then show ?thesis
              unfolding \<open>parsed = Some er\<close> er inviteUser_new[OF c w False None fresh]
              using uq by (simp add: uniqueGrants_def grantPair_def)
          qed
        qed
      qed
    qed
  qed
qed

lemma uniqueGrants_updatePermission:
  assumes uq: "uniqueGrants d"
  shows "uniqueGrants (snd (updatePermission d u pid prole))"
  using uq
  by (auto simp: updatePermission_def uniqueGrants_updatePermissionRole split: option.splits)

lemma uniqueGrants_deleteContract:
  assumes uq: "uniqueGrants d"
  shows "uniqueGrants (snd (deleteContract d u cid))"
  using uq
  by (auto simp: deleteContract_def uniqueGrants_def distinct_map_filter split: option.splits)

lemma uniqueGrants_removePermission:
  assumes uq: "uniqueGrants d"
  shows "uniqueGrants (snd (removePermission d u pid))"
  using uq
  by (auto simp: removePermission_def uniqueGrants_def distinct_map_filter split: option.splits)

text \<open>
  Claim C9. In a database with at most one grant for each (document, user) pair, the
  routes that write the grant table (invite, role update, removal, and the deletion of
  a document) leave at most one grant for each pair, whatever they answer. When the
  owner invites a registered user who already holds a grant on the document, the route
  answers 200 with that grant under its new role; the existing row now carries the new
  role, and the (document, user) pairs of the table are those it had before, in the
  same order: no row is added and nothing fails.
\<close>

theorem one_grant_per_document_and_user:
  assumes uq: "uniqueGrants d"
  shows "uniqueGrants (snd (inviteUser d u cid parsed newId)) \<and>
         uniqueGrants (snd (updatePermission d u pid prole)) \<and>
         uniqueGrants (snd (removePermission d u pid)) \<and>
         uniqueGrants (snd (deleteContract d u cid)) \<and>
         (findOwnedContract d cid (user_id u) \<noteq> None \<and> findUserByEmail d email = Some w \<and>
          user_id w \<noteq> user_id u \<and> findPermissionByPair d cid (user_id w) = Some e \<longrightarrow>
            fst (inviteUser d u cid (Some (email, role)) newId) =
              (200, PermissionBody (e\<lparr>perm_role := role\<rparr>) (userSummary d (user_id w))) \<and>
            findPermissionByPair (snd (inviteUser d u cid (Some (email, role)) newId)) cid (user_id w) =
              Some (e\<lparr>perm_role := role\<rparr>) \<and>
            map grantPair (permissions (snd (inviteUser d u cid (Some (email, role)) newId))) =
              map grantPair (permissions d))"
proof (intro conjI impI)
  show "uniqueGrants (snd (inviteUser d u cid parsed newId))"
    by (rule uniqueGrants_inviteUser[OF uq])
  show "uniqueGrants (snd (updatePermission d u pid prole))"
    by (rule uniqueGrants_updatePermission[OF uq])
  show "uniqueGrants (snd (removePermission d u pid))"
    by (rule uniqueGrants_removePermission[OF uq])
  show "uniqueGrants (snd (deleteContract d u cid))"
    by (rule uniqueGrants_deleteContract[OF uq])
next
  assume a: "findOwnedContract d cid (user_id u) \<noteq> None \<and> findUserByEmail d email = Some w \<and>
          user_id w \<noteq> user_id u \<and> findPermissionByPair d cid (user_id w) = Some e"
  then obtain c where c: "findOwnedContract d cid (user_id u) = Some c" by auto
  have e: "perm_userId e = user_id w"
    using a by (auto simp: findPermissionByPair_def dest: find_Some_set)
  note r = inviteUser_existing[OF c, of email w e role newId]
  show "fst (inviteUser d u cid (Some (email, role)) newId) =
              (200, PermissionBody (e\<lparr>perm_role := role\<rparr>) (userSummary d (user_id w)))"
    using r a e by simp
  show "findPermissionByPair (snd (inviteUser d u cid (Some (email, role)) newId)) cid (user_id w) =
              Some (e\<lparr>perm_role := role\<rparr>)"
    using r a findPermissionByPair_updateRole[of d cid "user_id w" e role] by simp
  show "map grantPair (permissions (snd (inviteUser d u cid (Some (email, role)) newId))) =
              map grantPair (permissions d)"
    using r a grants_updatePermissionRole[of "perm_id e" role d] by simp
qed


text \<open>In the office, Alice invites Carol, a VIEWER so far, as EDITOR.\<close>

lemma office_grants: "uniqueGrants office"
  by (simp add: uniqueGrants_def grantPair_def office_defs)

theorem one_grant_per_document_and_user_witness:
  "uniqueGrants office \<and>
   findOwnedContract office ''c1'' (user_id alice) \<noteq> None \<and>
   findUserByEmail office ''carol@example.org'' = Some carol \<and>
   findPermissionByPair office ''c1'' (user_id carol) = Some carolGrant \<and>
   perm_role carolGrant = VIEWER \<and>
   fst (fst (inviteUser office alice ''c1'' (Some (''carol@example.org'', EDITOR)) ''p3'')) = 200 \<and>
   findPermissionByPair (snd (inviteUser office alice ''c1'' (Some (''carol@example.org'', EDITOR)) ''p3''))
     ''c1'' (user_id carol) = Some (carolGrant\<lparr>perm_role := EDITOR\<rparr>) \<and>
   map grantPair (permissions (snd (inviteUser office alice ''c1'' (Some (''carol@example.org'', EDITOR)) ''p3'')))
     = [(''c1'', ''u2''), (''c1'', ''u3'')] \<and>
   uniqueGrants (snd (inviteUser office alice ''c1'' (Some (''carol@example.org'', EDITOR)) ''p3''))"
proof -
  have pre: "findOwnedContract office ''c1'' (user_id alice) \<noteq> None \<and>
             findUserByEmail office ''carol@example.org'' = Some carol \<and>
             user_id carol \<noteq> user_id alice \<and>
             findPermissionByPair office ''c1'' (user_id carol) = Some carolGrant \<and>
             perm_role carolGrant = VIEWER"
    by (simp add: findOwnedContract_def findUserByEmail_def findPermissionByPair_def office_defs)
  have pairs: "map grantPair (permissions office) = [(''c1'', ''u2''), (''c1'', ''u3'')]"
    by (simp add: grantPair_def office_defs)
  note th = one_grant_per_document_and_user[OF office_grants,
      where u = alice and cid = "''c1''" and parsed = "Some (''carol@example.org'', EDITOR)"
        and newId = "''p3''" and email = "''carol@example.org''" and w = carol
        and e = carolGrant and role = EDITOR]
  show ?thesis using th pre office_grants pairs by simp
qed

section \<open>Managing grants is the owner's\<close>

text \<open>
  Claim C5 says that a user who holds an ADMIN grant, and is not the owner, can create
  and update grants. In the office Bob is such a user, and both routes refuse him: the
  invite and the role update are answered 403 and change nothing.
\<close>

theorem admin_grant_manage_permissions_counterexample:
  "findPermissionByPair office ''c1'' (user_id bob) = Some bobGrant \<and> perm_role bobGrant = ADMIN \<and>
   findContract office ''c1'' = Some lease \<and> contract_ownerId lease \<noteq> user_id bob \<and>
   inviteUser office bob ''c1'' (Some (''dave@example.org'', VIEWER)) ''p3'' =
     ((403, ErrorBody ''Only contract owner can invite users''), office) \<and>
   findPermission office ''p2'' = Some carolGrant \<and>
   updatePermission office bob ''p2'' (Some EDITOR) =
     ((403, ErrorBody ''Only owner can modify permissions''), office)"
  by (simp add: findPermissionByPair_def findContract_def findPermission_def inviteUser_def
      updatePermission_def findOwnedContract_def office_defs)

text \<open>
  Claim C5, amended. Creating and updating grants is the owner's alone. Let \<open>c\<close> be
  the document with id \<open>cid\<close>. A user who is not its owner, whatever grant they hold
  (ADMIN included), is answered 403 by the invite route and by the role update of any
  grant on the document, and the database is left as it was. The owner's invite of
  another registered user is answered 200 or 201 and leaves that user with a grant of
  the role asked for; the owner's role update of a grant on the document is answered
  200 and the grant carries the new role.
\<close>

theorem manage_permissions_is_the_owners:
  assumes pk: "contractIdsUnique d"
    and doc: "findContract d cid = Some c"
  shows "(contract_ownerId c \<noteq> user_id u \<longrightarrow>
            inviteUser d u cid (Some (email, role)) newId =
              ((403, ErrorBody ''Only contract owner can invite users''), d) \<and>
            (\<forall>p. findPermission d pid = Some p \<and> perm_contractId p = cid \<longrightarrow>
               updatePermission d u pid (Some role) =
                 ((403, ErrorBody ''Only owner can modify permissions''), d)))
       \<and> (contract_ownerId c = user_id u \<longrightarrow>
            (\<forall>w. findUserByEmail d email = Some w \<and> user_id w \<noteq> user_id u \<and>
                 \<not> list_ex (\<lambda>p. perm_id p = newId) (permissions d) \<longrightarrow>
               fst (fst (inviteUser d u cid (Some (email, role)) newId)) \<in> {200, 201} \<and>
               map_option perm_role
                 (findPermissionByPair (snd (inviteUser d u cid (Some (email, role)) newId)) cid (user_id w))
                 = Some role) \<and>
            (\<forall>p. findPermission d pid = Some p \<and> perm_contractId p = cid \<longrightarrow>
               fst (fst (updatePermission d u pid (Some role))) = 200 \<and>
               findPermission (snd (updatePermission d u pid (Some role))) pid =
                 Some (p\<lparr>perm_role := role\<rparr>)))"
proof -
  have deny_invite: "inviteUser d u cid (Some (email, role)) newId =
          ((403, ErrorBody ''Only contract owner can invite users''), d)"
    if no: "contract_ownerId c \<noteq> user_id u"
    using findOwnedContract_nonowner[OF pk doc no] by (simp add: inviteUser_def)
  have deny_update: "updatePermission d u pid (Some role) =
          ((403, ErrorBody ''Only owner can modify permissions''), d)"
    if no: "contract_ownerId c \<noteq> user_id u"
      and p: "findPermission d pid = Some p \<and> perm_contractId p = cid" for p
    using p doc no by (simp add: updatePermission_def)
  have allow_invite: "fst (fst (inviteUser d u cid (Some (email, role)) newId)) \<in> {200, 201} \<and>
        map_option perm_role
          (findPermissionByPair (snd (inviteUser d u cid (Some (email, role)) newId)) cid (user_id w))
          = Some role"
    if ow: "contract_ownerId c = user_id u"
      and w: "findUserByEmail d email = Some w \<and> user_id w \<noteq> user_id u \<and>
              \<not> list_ex (\<lambda>p. perm_id p = newId) (permissions d)" for w
  proof -
    have c: "findOwnedContract d cid (user_id u) = Some c"
      by (rule findOwnedContract_owner[OF doc ow])
    show ?thesis
    proof (cases "findPermissionByPair d cid (user_id w)")
      case (Some e)
      show ?thesis
        using w inviteUser_existing[OF c _ _ Some, of email role newId]
          findPermissionByPair_updateRole[OF Some, of role]
        by simp
    next
      case None
      let ?p = "\<lparr>perm_id = newId, perm_contractId = cid, perm_userId = user_id w, perm_role = role\<rparr>"
      have "findPermissionByPair (d\<lparr>permissions := permissions d @ [?p]\<rparr>) cid (user_id w) = Some ?p"
        using None unfolding findPermissionByPair_def by (simp add: find_append_new)
      then show ?thesis
        using w inviteUser_new[OF c _ _ None, of email newId role] by simp
    qed
  qed
  have allow_update: "fst (fst (updatePermission d u pid (Some role))) = 200 \<and>
        findPermission (snd (updatePermission d u pid (Some role))) pid = Some (p\<lparr>perm_role := role\<rparr>)"
    if ow: "contract_ownerId c = user_id u"
      and p: "findPermission d pid = Some p \<and> perm_contractId p = cid" for p
    using p doc ow findPermission_updateRole[of d pid p role] by (simp add: updatePermission_def)
  show ?thesis
    using deny_invite deny_update allow_invite allow_update by blast
qed

theorem manage_permissions_is_the_owners_witness:
  "contractIdsUnique office \<and> findContract office ''c1'' = Some lease \<and>
   contract_ownerId lease \<noteq> user_id bob \<and>
   inviteUser office bob ''c1'' (Some (''dave@example.org'', VIEWER)) ''p3'' =
     ((403, ErrorBody ''Only contract owner can invite users''), office) \<and>
   updatePermission office bob ''p2'' (Some VIEWER) =
     ((403, ErrorBody ''Only owner can modify permissions''), office) \<and>
   contract_ownerId lease = user_id alice \<and>
   fst (fst (inviteUser office alice ''c1'' (Some (''dave@example.org'', VIEWER)) ''p3'')) \<in> {200, 201} \<and>
   map_option perm_role
     (findPermissionByPair (snd (inviteUser office alice ''c1'' (Some (''dave@example.org'', VIEWER)) ''p3''))
        ''c1'' (user_id dave)) = Some VIEWER \<and>
   fst (fst (updatePermission office alice ''p2'' (Some VIEWER))) = 200"
proof -
  have pre: "contract_ownerId lease \<noteq> user_id bob \<and> contract_ownerId lease = user_id alice \<and>
             findPermission office ''p2'' = Some carolGrant \<and> perm_contractId carolGrant = ''c1'' \<and>
             findUserByEmail office ''dave@example.org'' = Some dave \<and> user_id dave \<noteq> user_id alice \<and>
             \<not> list_ex (\<lambda>p. perm_id p = ''p3'') (permissions office)"
    by (simp add: findPermission_def findUserByEmail_def office_defs)
  note b = manage_permissions_is_the_owners[OF office_unique office_lease,
      where u = bob and email = "''dave@example.org''" and role = VIEWER and newId = "''p3''"
        and pid = "''p2''"]
  note a = manage_permissions_is_the_owners[OF office_unique office_lease,
      where u = alice and email = "''dave@example.org''" and role = VIEWER and newId = "''p3''"
        and pid = "''p2''"]
  show ?thesis using a b pre office_unique office_lease by auto
qed

section \<open>What the auth router answers\<close>

lemma find_rehash:
  assumes "\<And>u. P (u\<lparr>user_passwordHash := g u\<rparr>) = P u"
  shows "find P (map (\<lambda>u. u\<lparr>user_passwordHash := g u\<rparr>) us) =
         map_option (\<lambda>u. u\<lparr>user_passwordHash := g u\<rparr>) (find P us)"
  by (induction us) (simp_all add: assms)

lemma findUserById_rehash:
  "findUserById (rehash g d) uid = map_option (\<lambda>u. u\<lparr>user_passwordHash := g u\<rparr>) (findUserById d uid)"
  unfolding findUserById_def rehash_def by (simp add: find_rehash)

lemma findUserByEmail_rehash:
  "findUserByEmail (rehash g d) e = map_option (\<lambda>u. u\<lparr>user_passwordHash := g u\<rparr>) (findUserByEmail d e)"
  unfolding findUserByEmail_def rehash_def by (simp add: find_rehash)

lemma restWithout_userObject:
  "restWithout ''passwordHash'' (userObject u) =
     [(''id'', user_id u), (''email'', user_email u), (''name'', user_name u), (''color'', user_color u)]"
  by (simp add: restWithout_def userObject_def)

lemma me_cases:
  "me env d token = (case authenticate env d token of Inl r \<Rightarrow> r
     | Inr u \<Rightarrow> (200, UserBody [(''id'', user_id u), (''email'', user_email u),
                                 (''name'', user_name u), (''color'', user_color u)]))"
  by (simp add: me_def restWithout_userObject split: sum.splits)

lemma authenticate_rehash:
  "authenticate env (rehash g d) token =
     (case authenticate env d token of Inl r \<Rightarrow> Inl r
      | Inr u \<Rightarrow> Inr (u\<lparr>user_passwordHash := g u\<rparr>))"
  by (simp add: authenticate_def findUserById_rehash split: option.splits)

lemma withBcrypt_fields [simp]:
  "jwtSign (withBcrypt h c env) = jwtSign env"
  "jwtVerify (withBcrypt h c env) = jwtVerify env"
  "isEmail (withBcrypt h c env) = isEmail env"
  "bcryptHash (withBcrypt h c env) = h"
  "bcryptCompare (withBcrypt h c env) = c"
  by (simp_all add: withBcrypt_def)

lemma authenticate_withBcrypt [simp]:
  "authenticate (withBcrypt h c env) d token = authenticate env d token"
  by (simp add: authenticate_def split: option.splits)

lemma me_rehash: "me (withBcrypt h c env) (rehash g d) token = me env d token"
  by (simp add: me_cases authenticate_rehash split: sum.splits)

lemma me_keys:
  assumes "snd (me env d token) = UserBody obj"
  shows "keys obj = [''id'', ''email'', ''name'', ''color'']"
  using assms
  by (auto simp: me_cases keys_def authenticate_def split: sum.splits option.splits if_splits)

lemma login_keys:
  assumes "snd (login env d b) = AuthOk t obj"
  shows "keys obj = [''id'', ''email'', ''name'', ''color'']"
  using assms
  by (auto simp: login_def keys_def split: option.splits if_splits prod.splits)

lemma register_keys:
  assumes "snd (fst (register env d b rnd newId)) = AuthOk t obj"
  shows "keys obj = [''id'', ''email'', ''name'', ''color'']"
  using assms
  by (auto simp: register_def keys_def Let_def split: option.splits if_splits prod.splits)

lemma loginSchema_withBcrypt [simp]: "loginSchema (withBcrypt h c env) b = loginSchema env b"
  by (simp add: loginSchema_def split: prod.splits option.splits)

lemma registerSchema_withBcrypt [simp]: "registerSchema (withBcrypt h c env) b = registerSchema env b"
  by (simp add: registerSchema_def split: prod.splits option.splits)

lemma login_rehash:
  assumes "fst (login env d b) = 200" "fst (login (withBcrypt h c env) (rehash g d) b) = 200"
  shows "login (withBcrypt h c env) (rehash g d) b = login env d b"
  using assms
  by (auto simp: login_def findUserByEmail_rehash split: option.splits if_splits prod.splits)

lemma register_rehash:
  "fst (register (withBcrypt h c env) (rehash g d) b rnd newId) = fst (register env d b rnd newId)"
proof -
  have ex: "list_ex (\<lambda>u. user_id u = newId) (users (rehash g d)) = list_ex (\<lambda>u. user_id u = newId) (users d)"
    by (simp add: rehash_def list_ex_iff)
  show ?thesis
    by (auto simp: register_def findUserByEmail_rehash ex Let_def split: option.splits prod.splits)
qed

text \<open>
  Claim C10. The user object that \<open>/me\<close>, \<open>/login\<close> and \<open>/register\<close> answer with
  has no \<open>passwordHash\<close> key. Moreover the answers do not depend on the stored
  hashes: replace every stored hash by any other (and \<open>bcrypt\<close> by any other), and
  \<open>/me\<close> answers the same; two logins that both succeed answer the same; and
  \<open>/register\<close> answers the same.
\<close>

theorem responses_never_carry_passwordHash:
  "(\<forall>obj. snd (me env d token) = UserBody obj \<longrightarrow> ''passwordHash'' \<notin> set (keys obj)) \<and>
   (\<forall>t obj. snd (login env d b) = AuthOk t obj \<longrightarrow> ''passwordHash'' \<notin> set (keys obj)) \<and>
   (\<forall>t obj. snd (fst (register env d rb rnd newId)) = AuthOk t obj \<longrightarrow>
      ''passwordHash'' \<notin> set (keys obj)) \<and>
   me (withBcrypt h c env) (rehash g d) token = me env d token \<and>
   (fst (login env d b) = 200 \<and> fst (login (withBcrypt h c env) (rehash g d) b) = 200 \<longrightarrow>
      login (withBcrypt h c env) (rehash g d) b = login env d b) \<and>
   fst (register (withBcrypt h c env) (rehash g d) rb rnd newId) = fst (register env d rb rnd newId)"
proof (intro conjI allI impI)
  fix obj assume "snd (me env d token) = UserBody obj"
  from me_keys[OF this] show "''passwordHash'' \<notin> set (keys obj)" by simp
next
  fix t obj assume "snd (login env d b) = AuthOk t obj"
  from login_keys[OF this] show "''passwordHash'' \<notin> set (keys obj)" by simp
next
  fix t obj assume "snd (fst (register env d rb rnd newId)) = AuthOk t obj"
  from register_keys[OF this] show "''passwordHash'' \<notin> set (keys obj)" by simp
next
  show "me (withBcrypt h c env) (rehash g d) token = me env d token" by (rule me_rehash)
next
  assume "fst (login env d b) = 200 \<and> fst (login (withBcrypt h c env) (rehash g d) b) = 200"
  then show "login (withBcrypt h c env) (rehash g d) b = login env d b"
    using login_rehash by blast
next
  show "fst (register (withBcrypt h c env) (rehash g d) rb rnd newId) = fst (register env d rb rnd newId)"
    by (rule register_rehash)
qed


text \<open>
  In the office, with every hash salted anew: Bob logs in and asks for \<open>/me\<close>.
\<close>

theorem responses_never_carry_passwordHash_witness:
  "fst (login plainAuth office (Some ''bob@example.org'', Some ''builder'')) = 200 \<and>
   fst (login (withBcrypt (\<lambda>p. ''s9:'' @ p) (\<lambda>p x. drop 3 x = p) plainAuth)
          (rehash (\<lambda>u. ''s9:'' @ drop 3 (user_passwordHash u)) office)
          (Some ''bob@example.org'', Some ''builder'')) = 200 \<and>
   findUserById office ''u2'' = Some bob \<and>
   findUserById (rehash (\<lambda>u. ''s9:'' @ drop 3 (user_passwordHash u)) office) ''u2'' =
     Some (bob\<lparr>user_passwordHash := ''s9:builder''\<rparr>) \<and>
   login (withBcrypt (\<lambda>p. ''s9:'' @ p) (\<lambda>p x. drop 3 x = p) plainAuth)
     (rehash (\<lambda>u. ''s9:'' @ drop 3 (user_passwordHash u)) office)
     (Some ''bob@example.org'', Some ''builder'') =
   login plainAuth office (Some ''bob@example.org'', Some ''builder'') \<and>
   me plainAuth office (Some ''jwt:u2'') =
     (200, UserBody [(''id'', ''u2''), (''email'', ''bob@example.org''), (''name'', ''Bob''),
                     (''color'', ''#ff7f0e'')]) \<and>
   me (withBcrypt (\<lambda>p. ''s9:'' @ p) (\<lambda>p x. drop 3 x = p) plainAuth)
     (rehash (\<lambda>u. ''s9:'' @ drop 3 (user_passwordHash u)) office) (Some ''jwt:u2'') =
   me plainAuth office (Some ''jwt:u2'') \<and>
   ''passwordHash'' \<notin> set (keys [(''id'', ''u2''), (''email'', ''bob@example.org''), (''name'', ''Bob''),
                                   (''color'', ''#ff7f0e'')])"
proof -
  let ?g = "\<lambda>u. ''s9:'' @ drop 3 (user_passwordHash u)"
  let ?env = "withBcrypt (\<lambda>p. ''s9:'' @ p) (\<lambda>p x. drop 3 x = p) plainAuth"
  let ?b = "(Some ''bob@example.org'', Some ''builder'')"
  have l1: "fst (login plainAuth office ?b) = 200"
    by (simp add: login_def loginSchema_def findUserByEmail_def plainAuth_def office_defs)
  have l2: "fst (login ?env (rehash ?g office) ?b) = 200"
    by (simp add: login_def loginSchema_def findUserByEmail_def plainAuth_def rehash_def
        withBcrypt_def office_defs)
  have u: "findUserById office ''u2'' = Some bob"
    "findUserById (rehash ?g office) ''u2'' = Some (bob\<lparr>user_passwordHash := ''s9:builder''\<rparr>)"
    by (simp_all add: findUserById_def rehash_def office_defs)
  have m: "me plainAuth office (Some ''jwt:u2'') =
     (200, UserBody [(''id'', ''u2''), (''email'', ''bob@example.org''), (''name'', ''Bob''),
                     (''color'', ''#ff7f0e'')])"
    by (simp add: me_def authenticate_def findUserById_def restWithout_def userObject_def
        plainAuth_def office_defs)
  note th = responses_never_carry_passwordHash[where env = plainAuth and d = office
      and token = "Some ''jwt:u2''" and b = ?b and g = ?g
      and h = "\<lambda>p. ''s9:'' @ p" and c = "\<lambda>p x. drop 3 x = p"]
  show ?thesis using th l1 l2 u m by simp
qed

section \<open>Document addresses stay valid\<close>

text \<open>
  Every address the handlers read a document from was allocated before: the lookups
  \<open>heap s ! a\<close> of the model never leave the heap. The property holds of the empty
  process and every event keeps it.
\<close>

lemma addressesValid_cong:
  assumes "length (heap s') = length (heap s)" "docs s' = docs s"
    "updateListeners s' = updateListeners s" "pendingJoins s' = pendingJoins s"
  shows "addressesValid s' = addressesValid s"
  using assms by (simp add: addressesValid_def)

lemma saveDoc_frame:
  "heap (saveDoc y st s i) = heap s" "docs (saveDoc y st s i) = docs s"
  "updateListeners (saveDoc y st s i) = updateListeners s"
  "pendingJoins (saveDoc y st s i) = pendingJoins s"
  by (simp_all add: saveDoc_def)

lemma foldl_saveDoc_frame:
  "heap (foldl (saveDoc y st) s ids) = heap s \<and> docs (foldl (saveDoc y st) s ids) = docs s \<and>
   updateListeners (foldl (saveDoc y st) s ids) = updateListeners s \<and>
   pendingJoins (foldl (saveDoc y st) s ids) = pendingJoins s"
  by (induction ids arbitrary: s) (simp_all add: saveDoc_frame)

lemma applyUpdateAt_frame:
  "length (heap (applyUpdateAt y a u s)) = length (heap s) \<and>
   docs (applyUpdateAt y a u s) = docs s \<and>
   updateListeners (applyUpdateAt y a u s) = updateListeners s \<and>
   pendingJoins (applyUpdateAt y a u s) = pendingJoins s"
  by (simp add: applyUpdateAt_def Let_def foldl_saveDoc_frame)

lemma socketToEmit_frame:
  "heap (socketToEmit sock room msg s) = heap s" "docs (socketToEmit sock room msg s) = docs s"
  "updateListeners (socketToEmit sock room msg s) = updateListeners s"
  "pendingJoins (socketToEmit sock room msg s) = pendingJoins s"
  by (simp_all add: socketToEmit_def)

lemma onUpdate_frame:
  "length (heap (onUpdate y sock u s l)) = length (heap s) \<and>
   docs (onUpdate y sock u s l) = docs s \<and>
   updateListeners (onUpdate y sock u s l) = updateListeners s \<and>
   pendingJoins (onUpdate y sock u s l) = pendingJoins s"
  by (cases l) (simp add: onUpdate_def socketToEmit_frame applyUpdateAt_frame)

lemma foldl_onUpdate_frame:
  "length (heap (foldl (onUpdate y sock u) s ls)) = length (heap s) \<and>
   docs (foldl (onUpdate y sock u) s ls) = docs s \<and>
   updateListeners (foldl (onUpdate y sock u) s ls) = updateListeners s \<and>
   pendingJoins (foldl (onUpdate y sock u) s ls) = pendingJoins s"
  by (induction ls arbitrary: s) (simp_all add: onUpdate_frame)

lemma foldl_onCursor_frame:
  "heap (foldl (onCursor w sock pos) s ls) = heap s \<and>
   docs (foldl (onCursor w sock pos) s ls) = docs s \<and>
   updateListeners (foldl (onCursor w sock pos) s ls) = updateListeners s \<and>
   pendingJoins (foldl (onCursor w sock pos) s ls) = pendingJoins s"
  by (induction ls arbitrary: s) (simp_all add: onCursor_def socketToEmit_frame)

lemma addressesValid_grow:
  assumes "addressesValid s"
  shows "list_all (\<lambda>(_, a). a < Suc (length (heap s))) (docs s) \<and>
         list_all (\<lambda>(_, _, a). a < Suc (length (heap s))) (updateListeners s) \<and>
         list_all (\<lambda>(_, _, a, _). a < Suc (length (heap s))) (pendingJoins s)"
  using assms by (auto simp: addressesValid_def list_all_iff)

lemma addressesValid_joinContract:
  assumes "addressesValid s"
  shows "addressesValid (joinContract y sock cid s)"
proof (cases "map_of (docs s) cid")
  case None
  then show ?thesis
    using addressesValid_grow[OF assms]
    by (simp add: joinContract_def socketJoin_def getYjsDocBegin_def addressesValid_def Let_def)
next
  case (Some a)
  then have "(cid, a) \<in> set (docs s)" by (rule map_of_SomeD)
  then have "a < length (heap s)" using assms by (auto simp: addressesValid_def list_all_iff)
  then show ?thesis
    using Some assms
    by (simp add: joinContract_def socketJoin_def getYjsDocBegin_def joinContinue_def
        addressesValid_def Let_def)
qed

lemma addressesValid_redisGetReply:
  assumes "addressesValid s"
  shows "addressesValid (redisGetReply y s)"
proof (cases "pendingJoins s")
  case Nil
  then show ?thesis using assms by (simp add: redisGetReply_def)
next
  case (Cons p rest)
  obtain sock cid a stored where p: "p = (sock, cid, a, stored)" by (cases p)
  have a: "a < length (heap s)" and rest: "list_all (\<lambda>(_, _, a, _). a < length (heap s)) rest"
    using assms Cons p by (simp_all add: addressesValid_def)
  let ?s0 = "s\<lparr>pendingJoins := rest\<rparr>"
  let ?s1 = "case stored of None \<Rightarrow> ?s0 | Some b \<Rightarrow> applyUpdateAt y a b ?s0"
  have f1: "length (heap ?s1) = length (heap s) \<and> docs ?s1 = docs s \<and>
            updateListeners ?s1 = updateListeners s \<and> pendingJoins ?s1 = rest"
    by (cases stored) (simp_all add: applyUpdateAt_frame)
  have "list_all (\<lambda>(_, a). a < length (heap s)) (mapSet cid a (docs s))"
    using assms a by (auto simp: addressesValid_def mapSet_def list_all_iff)
  moreover have "list_all (\<lambda>(_, _, a). a < length (heap s)) (updateListeners s @ [(sock, cid, a)])"
    using assms a by (simp add: addressesValid_def)
  ultimately show ?thesis
    using Cons p rest f1
    by (simp add: redisGetReply_def getYjsDocResume_def joinContinue_def addressesValid_def Let_def)
qed

lemma addressesValid_step:
  assumes "addressesValid s"
  shows "addressesValid (step y s ev)"
proof (cases ev)
  case (JoinContract sock cid)
  then show ?thesis using assms by (simp add: addressesValid_joinContract)
next
  case (ClientUpdate sock u)
  have "addressesValid (clientUpdate y sock u s) = addressesValid s"
    unfolding clientUpdate_def by (rule addressesValid_cong) (simp_all add: foldl_onUpdate_frame)
  then show ?thesis using ClientUpdate assms by simp
next
  case (ClientCursor sock pos)
  have "addressesValid (clientCursor sock pos s) = addressesValid s"
    by (rule addressesValid_cong) (simp_all add: clientCursor_def foldl_onCursor_frame split: option.splits)
  then show ?thesis using ClientCursor assms by simp
next
  case RedisGetReply
  then show ?thesis using assms by (simp add: addressesValid_redisGetReply)
next
  case RedisSetReply
  then show ?thesis using assms by (simp add: redisSetReply_def addressesValid_def)
qed

lemma addressesValid_run:
  assumes "addressesValid s"
  shows "addressesValid (run y s evs)"
  using assms unfolding run_def
  by (induction evs arbitrary: s) (simp_all add: addressesValid_step)

lemma addressesValid_empty: "addressesValid emptyServer"
  by (simp add: addressesValid_def emptyServer_def)

lemma addressesValid_connectSocket:
  assumes "connectSocket env d sock token s = Inr s'"
  shows "addressesValid s' = addressesValid s"
  using assms
  by (auto simp: connectSocket_def addressesValid_def split: option.splits if_splits)

section \<open>Documents keep the handler that saves them\<close>

text \<open>
  \<open>wired\<close> holds of the empty process, and handshakes and events keep it: in every
  state the process reaches, the document behind an \<open>update\<close> listener carries the one
  handler that writes it back under the listener's contract id.
\<close>

lemma wired_cong:
  assumes "length (heap s') = length (heap s)"
    "\<And>a. a < length (heap s) \<Longrightarrow> ydoc_onUpdate (heap s' ! a) = ydoc_onUpdate (heap s ! a)"
    "docs s' = docs s" "updateListeners s' = updateListeners s" "pendingJoins s' = pendingJoins s"
    "wired s"
  shows "wired s'"
  using assms unfolding wired_def addressesValid_def list_all_iff
  by (simp add: split_beta)

lemma foldl_saveDoc_heap: "heap (foldl (saveDoc y st) s ids) = heap s"
  by (simp add: foldl_saveDoc_frame)

lemma applyUpdateAt_handlers:
  "ydoc_onUpdate (heap (applyUpdateAt y a u s) ! b) = ydoc_onUpdate (heap s ! b)"
  by (cases "b = a") (simp_all add: applyUpdateAt_def Let_def foldl_saveDoc_heap)

lemma onUpdate_handlers:
  "ydoc_onUpdate (heap (onUpdate y sock u s l) ! b) = ydoc_onUpdate (heap s ! b)"
  by (cases l) (simp add: onUpdate_def socketToEmit_frame applyUpdateAt_handlers)

lemma foldl_onUpdate_handlers:
  "ydoc_onUpdate (heap (foldl (onUpdate y sock u) s ls) ! b) = ydoc_onUpdate (heap s ! b)"
  by (induction ls arbitrary: s) (simp_all add: onUpdate_handlers)

lemma wired_clientUpdate:
  assumes "wired s"
  shows "wired (clientUpdate y sock u s)"
  unfolding clientUpdate_def
  by (rule wired_cong[OF _ _ _ _ _ assms]) (simp_all add: foldl_onUpdate_frame foldl_onUpdate_handlers)

lemma wired_clientCursor:
  assumes "wired s"
  shows "wired (clientCursor sock pos s)"
  by (rule wired_cong[OF _ _ _ _ _ assms])
     (simp_all add: clientCursor_def foldl_onCursor_frame split: option.splits)

lemma wired_redisSetReply:
  assumes "wired s"
  shows "wired (redisSetReply s)"
  by (rule wired_cong[OF _ _ _ _ _ assms]) (simp_all add: redisSetReply_def)

lemma wired_joinContract:
  assumes w: "wired s"
  shows "wired (joinContract y sock cid s)"
proof (cases "map_of (docs s) cid")
  case None
  have av: "addressesValid s" using w by (simp add: wired_def)
  have fresh: "length (heap s) \<notin> set (map (\<lambda>(_, _, a, _). a) (pendingJoins s))"
    using av by (auto simp: addressesValid_def list_all_iff)
  have keep: "\<And>a. a < length (heap s) \<Longrightarrow> (heap s @ [\<lparr>ydoc_state = newDoc y, ydoc_onUpdate = []\<rparr>]) ! a = heap s ! a"
    by (simp add: nth_append)
  have res: "joinContract y sock cid s =
      (socketJoin sock (roomName cid) s)
        \<lparr>heap := heap s @ [\<lparr>ydoc_state = newDoc y, ydoc_onUpdate = []\<rparr>],
         redisReads := redisReads s @ [docKey cid],
         pendingJoins := pendingJoins s @ [(sock, cid, length (heap s), map_of (redis s) (docKey cid))]\<rparr>"
    using None by (simp add: joinContract_def socketJoin_def getYjsDocBegin_def Let_def)
  have sj: "heap (socketJoin sock (roomName cid) s) = heap s"
    "docs (socketJoin sock (roomName cid) s) = docs s"
    "updateListeners (socketJoin sock (roomName cid) s) = updateListeners s"
    "pendingJoins (socketJoin sock (roomName cid) s) = pendingJoins s"
    by (simp_all add: socketJoin_def)
  show ?thesis
    unfolding res
    using w fresh addressesValid_grow[OF av]
    by (auto simp: wired_def addressesValid_def sj list_all_iff nth_append)
next
  case (Some a)
  then have mem: "(cid, a) \<in> set (docs s)" by (rule map_of_SomeD)
  then have a: "a < length (heap s)" using w by (auto simp: wired_def addressesValid_def list_all_iff)
  have h: "ydoc_onUpdate (heap s ! a) = [cid]"
    using w mem by (auto simp: wired_def list_all_iff)
  have res: "joinContract y sock cid s =
      (socketJoin sock (roomName cid) s)
        \<lparr>sent := sent (socketJoin sock (roomName cid) s) @
           [(sock, SyncMsg (toBase64 y (encodeStateAsUpdate y (ydoc_state (heap s ! a)))))],
         updateListeners := updateListeners s @ [(sock, cid, a)],
         cursorListeners := cursorListeners (socketJoin sock (roomName cid) s) @ [(sock, cid)]\<rparr>"
    using Some by (simp add: joinContract_def socketJoin_def getYjsDocBegin_def joinContinue_def Let_def)
  have sj: "heap (socketJoin sock (roomName cid) s) = heap s"
    "docs (socketJoin sock (roomName cid) s) = docs s"
    "updateListeners (socketJoin sock (roomName cid) s) = updateListeners s"
    "pendingJoins (socketJoin sock (roomName cid) s) = pendingJoins s"
    by (simp_all add: socketJoin_def)
  show ?thesis
    unfolding res using w a h by (simp add: wired_def addressesValid_def sj)
qed

lemma wired_redisGetReply:
  assumes w: "wired s"
  shows "wired (redisGetReply y s)"
proof (cases "pendingJoins s")
  case Nil
  then show ?thesis using w by (simp add: redisGetReply_def)
next
  case (Cons p rest)
  obtain sock cid a stored where p: "p = (sock, cid, a, stored)" by (cases p)
  have av: "addressesValid s" using w by (simp add: wired_def)
  have a: "a < length (heap s)"
    and rest: "list_all (\<lambda>(_, _, b, _). b < length (heap s)) rest"
    and fresh: "a \<notin> set (map (\<lambda>(_, _, b, _). b) rest)"
    and dist: "distinct (map (\<lambda>(_, _, b, _). b) rest)"
    and empty: "ydoc_onUpdate (heap s ! a) = []"
    and rest_empty: "list_all (\<lambda>(_, _, b, _). ydoc_onUpdate (heap s ! b) = []) rest"
    using w Cons p by (simp_all add: wired_def addressesValid_def)
  define s1 where "s1 = (case stored of None \<Rightarrow> s\<lparr>pendingJoins := rest\<rparr>
                                     | Some b \<Rightarrow> applyUpdateAt y a b (s\<lparr>pendingJoins := rest\<rparr>))"
  have f1: "length (heap s1) = length (heap s)" "docs s1 = docs s"
    "updateListeners s1 = updateListeners s" "pendingJoins s1 = rest"
    unfolding s1_def by (cases stored; simp add: applyUpdateAt_frame)+
  have h1: "\<And>b. ydoc_onUpdate (heap s1 ! b) = ydoc_onUpdate (heap s ! b)"
    unfolding s1_def by (cases stored) (simp_all add: applyUpdateAt_handlers)
  define h where "h = (heap s1)[a := (heap s1 ! a)\<lparr>ydoc_onUpdate := ydoc_onUpdate (heap s1 ! a) @ [cid]\<rparr>]"
  have res: "redisGetReply y s =
      s1\<lparr>docs := mapSet cid a (docs s), heap := h,
          sent := sent s1 @ [(sock, SyncMsg (toBase64 y (encodeStateAsUpdate y (ydoc_state (h ! a)))))],
          updateListeners := updateListeners s @ [(sock, cid, a)],
          cursorListeners := cursorListeners s1 @ [(sock, cid)]\<rparr>"
    using Cons p f1 unfolding h_def s1_def
    by (simp add: redisGetReply_def getYjsDocResume_def joinContinue_def Let_def)
  have hn: "\<And>b. b < length (heap s) \<Longrightarrow>
              ydoc_onUpdate (h ! b) = (if b = a then [cid] else ydoc_onUpdate (heap s ! b))"
    using f1(1) h1 empty unfolding h_def by (simp add: nth_list_update)
  have len: "length h = length (heap s)" using f1(1) unfolding h_def by simp
  have other: "\<And>b. ydoc_onUpdate (heap s ! b) \<noteq> [] \<Longrightarrow> b \<noteq> a"
    using empty by auto
  have docs_ok: "list_all (\<lambda>(c, b). ydoc_onUpdate (h ! b) = [c]) (mapSet cid a (docs s))"
    unfolding list_all_iff
  proof
    fix x assume x: "x \<in> set (mapSet cid a (docs s))"
    obtain c b where cb: "x = (c, b)" by (cases x)
    show "case x of (c, b) \<Rightarrow> ydoc_onUpdate (h ! b) = [c]"
    proof (cases "x = (cid, a)")
      case True
      then show ?thesis using hn[OF a] by simp
    next
      case False
      then have m: "(c, b) \<in> set (docs s)" using x cb by (auto simp: mapSet_def)
      then have b: "b < length (heap s)" and hb: "ydoc_onUpdate (heap s ! b) = [c]"
        using w by (auto simp: wired_def addressesValid_def list_all_iff)
      then have "b \<noteq> a" using other[of b] by simp
      then show ?thesis using hn[OF b] hb cb by simp
    qed
  qed
  have lis_ok: "list_all (\<lambda>(_, c, b). ydoc_onUpdate (h ! b) = [c]) (updateListeners s @ [(sock, cid, a)])"
    unfolding list_all_iff
  proof
    fix x assume x: "x \<in> set (updateListeners s @ [(sock, cid, a)])"
    obtain k c b where cb: "x = (k, c, b)" by (cases x)
    show "case x of (_, c, b) \<Rightarrow> ydoc_onUpdate (h ! b) = [c]"
    proof (cases "x \<in> set (updateListeners s)")
      case False
      then have "x = (sock, cid, a)" using x by simp
      then show ?thesis using hn[OF a] by simp
    next
      case True
      then have b: "b < length (heap s)" and hb: "ydoc_onUpdate (heap s ! b) = [c]"
        using w cb by (auto simp: wired_def addressesValid_def list_all_iff)
      then have "b \<noteq> a" using other[of b] by simp
      then show ?thesis using hn[OF b] hb cb by simp
    qed
  qed
  have pend_ok: "list_all (\<lambda>(_, _, b, _). ydoc_onUpdate (h ! b) = []) rest"
    unfolding list_all_iff
  proof
    fix x assume x: "x \<in> set rest"
    obtain k c b st where cb: "x = (k, c, b, st)" by (cases x)
    have b: "b < length (heap s)" and hb: "ydoc_onUpdate (heap s ! b) = []"
      using rest rest_empty x cb by (auto simp: list_all_iff)
    have "b \<noteq> a" using fresh x cb by force
    then show "case x of (_, _, b, _) \<Rightarrow> ydoc_onUpdate (h ! b) = []"
      using hn[OF b] hb cb by simp
  qed
  have av1: "list_all (\<lambda>(_, b). b < length h) (mapSet cid a (docs s))"
    using av a len by (auto simp: addressesValid_def mapSet_def list_all_iff)
  have av2: "list_all (\<lambda>(_, _, b). b < length h) (updateListeners s @ [(sock, cid, a)])"
    using av a len by (auto simp: addressesValid_def list_all_iff)
  have av3: "list_all (\<lambda>(_, _, b, _). b < length h) rest"
    using rest len by simp
  have sel: "heap (redisGetReply y s) = h" "docs (redisGetReply y s) = mapSet cid a (docs s)"
    "updateListeners (redisGetReply y s) = updateListeners s @ [(sock, cid, a)]"
    "pendingJoins (redisGetReply y s) = rest"
    unfolding res using f1 by simp_all
  show ?thesis
    unfolding wired_def addressesValid_def sel
    using docs_ok lis_ok pend_ok av1 av2 av3 dist by blast
qed

lemma wired_step:
  assumes "wired s"
  shows "wired (step y s ev)"
  using assms
  by (cases ev)
     (simp_all add: wired_joinContract wired_clientUpdate wired_clientCursor
        wired_redisGetReply wired_redisSetReply)

lemma wired_run:
  assumes "wired s"
  shows "wired (run y s evs)"
  using assms unfolding run_def
  by (induction evs arbitrary: s) (simp_all add: wired_step)

lemma wired_connectSocket:
  assumes "connectSocket env d sock token s = Inr s'" "wired s"
  shows "wired s'"
  using assms
  by (auto simp: connectSocket_def wired_def addressesValid_def split: option.splits if_splits)

lemma wired_handshakes:
  assumes "wired s"
  shows "wired (handshakes env d hs s)"
  using assms unfolding handshakes_def
proof (induction hs arbitrary: s)
  case Nil
  then show ?case by simp
next
  case (Cons h hs)
  obtain sock token where h: "h = (sock, token)" by (cases h)
  have "wired (case connectSocket env d sock token s of Inl _ \<Rightarrow> s | Inr s' \<Rightarrow> s')"
    using Cons.prems wired_connectSocket by (cases "connectSocket env d sock token s") auto
  then show ?case using Cons.IH h by simp
qed

lemma wired_empty: "wired emptyServer"
  by (simp add: wired_def addressesValid_def emptyServer_def)


lemma listenersOf_member:
  "l \<in> set (listenersOf sock ls) \<longleftrightarrow> (sock, l) \<in> set ls"
  by (auto simp: listenersOf_def image_iff)

section \<open>The socket handler and the grants\<close>

text \<open>
  Claim C1 asks that a delta of a user without the permission for it is dropped. The
  \<open>update\<close> listener applies and relays whatever a joined socket sends; neither the
  owner nor the grants are looked at. In the office Carol holds a VIEWER grant on
  \<open>c1\<close>. With Alice in the room, Carol's update \<open>x\<close> is applied to the document,
  written to the store and relayed to Alice.
\<close>

theorem viewer_update_is_merged_and_broadcast:
  "findPermissionByPair office ''c1'' (user_id carol) = Some carolGrant \<and>
   perm_role carolGrant = VIEWER \<and>
   contract_ownerId lease \<noteq> user_id carol \<and>
   map_of (sockets connected) 2 = Some carol \<and>
   map ydoc_state (heap (run charSetYjs connected
     [JoinContract 1 ''c1'', RedisGetReply, JoinContract 2 ''c1''])) = [''''] \<and>
   map ydoc_state (heap (run charSetYjs connected
     [JoinContract 1 ''c1'', RedisGetReply, JoinContract 2 ''c1'', ClientUpdate 2 ''x''])) = [''x''] \<and>
   sent (run charSetYjs connected
     [JoinContract 1 ''c1'', RedisGetReply, JoinContract 2 ''c1'', ClientUpdate 2 ''x'']) =
   sent (run charSetYjs connected
     [JoinContract 1 ''c1'', RedisGetReply, JoinContract 2 ''c1'']) @ [(1, UpdateMsg ''x'')] \<and>
   map_of (redis (run charSetYjs connected
     [JoinContract 1 ''c1'', RedisGetReply, JoinContract 2 ''c1'', ClientUpdate 2 ''x'']))
     ''yjs:doc:c1'' = Some ''x''"
  by code_simp

text \<open>
  Claim C2 asks that a join succeeds only for a user who may view the document. The
  \<open>join-contract\<close> handler admits every connected socket. Dave is neither owner nor
  grantee of \<open>c1\<close>; after Alice's update \<open>draft\<close> he joins, is a member of the room,
  receives the current state and has his listeners registered.
\<close>

theorem stranger_joins_and_receives_state:
  "findPermissionByPair office ''c1'' (user_id dave) = None \<and>
   contract_ownerId lease \<noteq> user_id dave \<and>
   map_of (sockets connected) 3 = Some dave \<and>
   rooms (run charSetYjs connected
     [JoinContract 1 ''c1'', RedisGetReply, ClientUpdate 1 ''draft'', JoinContract 3 ''c1'']) =
     [(1, ''contract:c1''), (3, ''contract:c1'')] \<and>
   sent (run charSetYjs connected
     [JoinContract 1 ''c1'', RedisGetReply, ClientUpdate 1 ''draft'', JoinContract 3 ''c1'']) =
     [(1, SyncMsg ''''), (3, SyncMsg ''draft'')] \<and>
   updateListeners (run charSetYjs connected
     [JoinContract 1 ''c1'', RedisGetReply, ClientUpdate 1 ''draft'', JoinContract 3 ''c1'']) =
     [(1, ''c1'', 0), (3, ''c1'', 0)]"
  by code_simp

section \<open>First access to a document\<close>

text \<open>
  Claim C3 asks that two first accesses that overlap construct one document and read
  the store once. \<open>getYjsDoc\<close> looks the id up in \<open>docs\<close> before its \<open>await\<close> and
  enters the new document after it. When the second \<open>join-contract\<close> arrives before
  the first read is answered, both calls miss, both construct a document and both read
  the store; each socket's listener then holds its own document, the map keeps the
  later one, and each document overwrites the other's state in the store. When the
  second join arrives after the reply, there is one read and one document.
\<close>

theorem concurrent_first_access_builds_two_documents:
  "redisReads (run charSetYjs connected
     [JoinContract 1 ''c1'', JoinContract 2 ''c1'', RedisGetReply, RedisGetReply]) =
     [''yjs:doc:c1'', ''yjs:doc:c1''] \<and>
   length (heap (run charSetYjs connected
     [JoinContract 1 ''c1'', JoinContract 2 ''c1'', RedisGetReply, RedisGetReply])) = 2 \<and>
   updateListeners (run charSetYjs connected
     [JoinContract 1 ''c1'', JoinContract 2 ''c1'', RedisGetReply, RedisGetReply]) =
     [(1, ''c1'', 0), (2, ''c1'', 1)] \<and>
   docs (run charSetYjs connected
     [JoinContract 1 ''c1'', JoinContract 2 ''c1'', RedisGetReply, RedisGetReply]) = [(''c1'', 1)] \<and>
   map ydoc_state (heap (run charSetYjs connected
     [JoinContract 1 ''c1'', JoinContract 2 ''c1'', RedisGetReply, RedisGetReply,
      ClientUpdate 1 ''a'', ClientUpdate 2 ''b''])) = [''a'', ''b''] \<and>
   redis (run charSetYjs connected
     [JoinContract 1 ''c1'', JoinContract 2 ''c1'', RedisGetReply, RedisGetReply,
      ClientUpdate 1 ''a'', ClientUpdate 2 ''b'']) = [(''yjs:doc:c1'', ''b'')] \<and>
   redisReads (run charSetYjs connected
     [JoinContract 1 ''c1'', RedisGetReply, JoinContract 2 ''c1'']) = [''yjs:doc:c1''] \<and>
   length (heap (run charSetYjs connected
     [JoinContract 1 ''c1'', RedisGetReply, JoinContract 2 ''c1''])) = 1"
  by code_simp

section \<open>Write-backs\<close>

text \<open>
  Claim C4 says that a merge arriving while a write for the document is in flight
  triggers no second write. Alice sends \<open>a\<close> and then \<open>b\<close>, and the store has
  answered neither write: two \<open>set\<close> commands for the same key are in flight.
\<close>

theorem write_backs_coalesced_counterexample:
  "redisWrites (run charSetYjs connected
     [JoinContract 1 ''c1'', RedisGetReply, ClientUpdate 1 ''a'']) = [''yjs:doc:c1''] \<and>
   redisWrites (run charSetYjs connected
     [JoinContract 1 ''c1'', RedisGetReply, ClientUpdate 1 ''a'', ClientUpdate 1 ''b'']) =
     [''yjs:doc:c1'', ''yjs:doc:c1'']"
  by code_simp


lemma redisWrites_socketToEmit [simp]:
  "redisWrites (socketToEmit sock room msg s) = redisWrites s"
  "redis (socketToEmit sock room msg s) = redis s"
  by (simp_all add: socketToEmit_def)

lemma applyUpdateAt_one_handler:
  assumes "a < length (heap s)" "ydoc_onUpdate (heap s ! a) = [docId]"
  shows "redisWrites (applyUpdateAt y a u s) =
           (if emitsUpdate y (ydoc_state (heap s ! a)) u then redisWrites s @ [docKey docId]
            else redisWrites s)"
    and "emitsUpdate y (ydoc_state (heap s ! a)) u \<Longrightarrow>
         map_of (redis (applyUpdateAt y a u s)) (docKey docId) =
           Some (encodeStateAsUpdate y (applyUpdate y (ydoc_state (heap s ! a)) u))"
  using assms by (simp_all add: applyUpdateAt_def Let_def saveDoc_def mapSet_def)

text \<open>
  Claim C4, amended. In every state the process reaches (\<open>wired\<close>), let the socket be
  connected with one \<open>update\<close> listener, on the document at \<open>a\<close> for the contract
  \<open>cid\<close>. Every update the socket sends that makes the document emit \<open>update\<close>
  issues one more \<open>set\<close> for the document's key at once, behind whatever writes are
  still in flight, and the store then holds the encoding of the state after the merge.
  An update that emits nothing issues no write.
\<close>

theorem every_merge_issues_its_own_write:
  assumes w: "wired s"
    and conn: "map_of (sockets s) sock \<noteq> None"
    and lis: "listenersOf sock (updateListeners s) = [(cid, a)]"
  shows "redisWrites (step y s (ClientUpdate sock u)) =
           (if emitsUpdate y (ydoc_state (heap s ! a)) (fromBase64 y u)
            then redisWrites s @ [docKey cid] else redisWrites s) \<and>
         (emitsUpdate y (ydoc_state (heap s ! a)) (fromBase64 y u) \<longrightarrow>
            map_of (redis (step y s (ClientUpdate sock u))) (docKey cid) =
              Some (encodeStateAsUpdate y
                      (applyUpdate y (ydoc_state (heap s ! a)) (fromBase64 y u))))"
proof -
  have "(cid, a) \<in> set (listenersOf sock (updateListeners s))" using lis by simp
  then have m: "(sock, cid, a) \<in> set (updateListeners s)" by (simp add: listenersOf_member)
  have a: "a < length (heap s)" and h: "ydoc_onUpdate (heap s ! a) = [cid]"
    using w m by (auto simp: wired_def addressesValid_def list_all_iff)
  have st: "step y s (ClientUpdate sock u) =
              socketToEmit sock (roomName cid) (UpdateMsg u) (applyUpdateAt y a (fromBase64 y u) s)"
    using conn lis by (auto simp: clientUpdate_def onUpdate_def)
  show ?thesis
    unfolding st using applyUpdateAt_one_handler[OF a h, of y "fromBase64 y u"] by simp
qed

text \<open>Alice sends \<open>b\<close> while the write for \<open>a\<close> is in flight.\<close>

theorem every_merge_issues_its_own_write_witness:
  "wired aliceEditing \<and>
   map_of (sockets aliceEditing) 1 \<noteq> None \<and>
   listenersOf 1 (updateListeners aliceEditing) = [(''c1'', 0)] \<and>
   emitsUpdate charSetYjs (ydoc_state (heap aliceEditing ! 0)) (fromBase64 charSetYjs ''b'') \<and>
   redisWrites aliceEditing = [''yjs:doc:c1''] \<and>
   redisWrites (step charSetYjs aliceEditing (ClientUpdate 1 ''b'')) =
     [''yjs:doc:c1'', ''yjs:doc:c1''] \<and>
   map_of (redis (step charSetYjs aliceEditing (ClientUpdate 1 ''b''))) ''yjs:doc:c1'' = Some ''ab''"
proof -
  have w: "wired aliceEditing"
    unfolding aliceEditing_def connected_def
    by (intro wired_run wired_handshakes wired_empty)
  have conn: "map_of (sockets aliceEditing) 1 \<noteq> None" by code_simp
  have lis: "listenersOf 1 (updateListeners aliceEditing) = [(''c1'', 0)]" by code_simp
  have e: "emitsUpdate charSetYjs (ydoc_state (heap aliceEditing ! 0)) (fromBase64 charSetYjs ''b'')"
    by code_simp
  have r: "redisWrites aliceEditing = [''yjs:doc:c1'']" by code_simp
  have v: "encodeStateAsUpdate charSetYjs
             (applyUpdate charSetYjs (ydoc_state (heap aliceEditing ! 0)) (fromBase64 charSetYjs ''b''))
           = ''ab''" by code_simp
  note th = every_merge_issues_its_own_write[OF w conn lis, of charSetYjs "''b''"]
  show ?thesis using th w conn lis e r v by (simp add: docKey_def)
qed

end
